theory Spec2Isabelle
  imports Main
begin

section \<open>Python values\<close>

text \<open>
  The orchestrators pass around what \<open>json.loads\<close> returns: \<open>None\<close>, booleans, numbers,
  strings, lists and dicts. A dict is an association list read with \<open>map_of\<close>. Numbers are
  integers here; the code only tests a number for truth and equality. A string is a list of
  characters with code points below 256.
\<close>

datatype json =
    JNull
  | JBool bool
  | JNum int
  | JStr string
  | JArr "json list"
  | JObj "(string \<times> json) list"

type_synonym pydict = "(string \<times> json) list"

datatype error =
    AttributeError
  | KeyError
  | TypeError
  | JSONDecodeError
  | ConnectionError
  | BackendError
  | OverflowError
  | DBAPIError

text \<open>An exception ends a sequence of steps; \<open>bind_err\<close> chains steps that may raise.\<close>

definition bind_err :: "error + 'a \<Rightarrow> ('a \<Rightarrow> error + 'b) \<Rightarrow> error + 'b" where
  "bind_err m f = (case m of Inl e \<Rightarrow> Inl e | Inr x \<Rightarrow> f x)"

text \<open>Truth value of a Python object, as \<open>if x\<close>, \<open>x or y\<close> and \<open>x and y\<close> test it.\<close>

fun truthy :: "json \<Rightarrow> bool" where
  "truthy JNull = False"
| "truthy (JBool b) = b"
| "truthy (JNum n) = (n \<noteq> 0)"
| "truthy (JStr s) = (s \<noteq> [])"
| "truthy (JArr xs) = (xs \<noteq> [])"
| "truthy (JObj kvs) = (kvs \<noteq> [])"

definition py_or :: "json \<Rightarrow> json \<Rightarrow> json" where
  "py_or x y = (if truthy x then x else y)"

text \<open>\<open>d.get(k)\<close> gives \<open>None\<close> for a missing key, \<open>d.get(k, v)\<close> gives \<open>v\<close>.\<close>

definition dict_get :: "pydict \<Rightarrow> string \<Rightarrow> json" where
  "dict_get d k = (case map_of d k of None \<Rightarrow> JNull | Some v \<Rightarrow> v)"

definition dict_get_default :: "pydict \<Rightarrow> string \<Rightarrow> json \<Rightarrow> json" where
  "dict_get_default d k v0 = (case map_of d k of None \<Rightarrow> v0 | Some v \<Rightarrow> v)"

text \<open>
  \<open>str.lower\<close> and \<open>str.strip\<close>. Below code point 256 the upper-case letters are A to Z and
  the accented capitals 192 to 222 without the multiplication sign 215; the white space
  \<open>strip\<close> removes is 9 to 13, 28 to 32, 133 and 160.
\<close>

definition lower_char :: "char \<Rightarrow> char" where
  "lower_char c =
     (let n = (of_char c :: nat)
      in if (65 \<le> n \<and> n \<le> 90) \<or> (192 \<le> n \<and> n \<le> 222 \<and> n \<noteq> 215)
         then char_of (n + 32) else c)"

definition py_lower :: "string \<Rightarrow> string" where
  "py_lower s = map lower_char s"

definition is_space :: "char \<Rightarrow> bool" where
  "is_space c =
     (let n = (of_char c :: nat)
      in (9 \<le> n \<and> n \<le> 13) \<or> (28 \<le> n \<and> n \<le> 32) \<or> n = 133 \<or> n = 160)"

definition py_strip :: "string \<Rightarrow> string" where
  "py_strip s = rev (dropWhile is_space (rev (dropWhile is_space s)))"

text \<open>
  The methods exist on \<open>str\<close> only: on any other object the attribute lookup raises
  \<open>AttributeError\<close>.
\<close>

definition str_lower :: "json \<Rightarrow> error + json" where
  "str_lower v = (case v of JStr s \<Rightarrow> Inr (JStr (py_lower s)) | _ \<Rightarrow> Inl AttributeError)"

definition str_strip :: "json \<Rightarrow> error + string" where
  "str_strip v = (case v of JStr s \<Rightarrow> Inr (py_strip s) | _ \<Rightarrow> Inl AttributeError)"

section \<open>The lead store (data/models.py, data/store.py)\<close>

text \<open>
  The three tables. A table model does not validate what is assigned to it, so the text
  columns are typed as Python values; what a commit makes of a value is \<open>sql_text\<close>
  below. An event row is kept as the arguments of \<open>save_event\<close>: the payload before
  \<open>json.dumps\<close>, and the call sid as passed (the call sids of Twilio and of a brain are
  strings, which the database keeps as they are). The time stamps \<open>created_at\<close>,
  \<open>updated_at\<close> and \<open>ts\<close> and the row number of an event are left out: the code writes
  them and never reads them.
\<close>

record lead =
  lead_id :: nat
  lead_phone :: json
  owner_name :: json
  property_address :: json
  interest :: json
  price_range :: json
  timing :: json
  condition :: json
  owner_status :: json
  lead_qualified :: bool

record callback =
  cb_id :: nat
  cb_lead_id :: nat
  window :: json
  cb_notes :: json

record call_event =
  ev_call_sid :: json
  event_type :: string
  payload :: json

record store =
  leads :: "lead list"
  callbacks :: "callback list"
  events :: "call_event list"

text \<open>The keyword arguments \<open>upsert_lead\<close> is called with name text columns of a lead.\<close>

datatype lead_field =
  Owner_name | Property_address | Interest | Price_range | Timing | Condition | Owner_status

definition all_fields :: "lead_field list" where
  "all_fields =
     [Owner_name, Property_address, Interest, Price_range, Timing, Condition, Owner_status]"

fun get_field :: "lead_field \<Rightarrow> lead \<Rightarrow> json" where
  "get_field Owner_name l = owner_name l"
| "get_field Property_address l = property_address l"
| "get_field Interest l = interest l"
| "get_field Price_range l = price_range l"
| "get_field Timing l = timing l"
| "get_field Condition l = condition l"
| "get_field Owner_status l = owner_status l"

fun set_field :: "lead_field \<Rightarrow> json \<Rightarrow> lead \<Rightarrow> lead" where
  "set_field Owner_name v l = l\<lparr>owner_name := v\<rparr>"
| "set_field Property_address v l = l\<lparr>property_address := v\<rparr>"
| "set_field Interest v l = l\<lparr>interest := v\<rparr>"
| "set_field Price_range v l = l\<lparr>price_range := v\<rparr>"
| "set_field Timing v l = l\<lparr>timing := v\<rparr>"
| "set_field Condition v l = l\<lparr>condition := v\<rparr>"
| "set_field Owner_status v l = l\<lparr>owner_status := v\<rparr>"

text \<open>
  A fresh primary key is one more than the largest in the table, from 1, as SQLite (the
  default \<open>DB_URL\<close>) assigns it.
\<close>

definition next_id :: "nat list \<Rightarrow> nat" where
  "next_id ids = Suc (fold max ids 0)"

text \<open>
  What a commit makes of a Python value bound to a text column. SQLite keeps a string as
  it is and turns a number into its decimal text (a boolean is the number 1 or 0); the
  driver refuses an integer outside 64 bits with \<open>OverflowError\<close>, and a list or a dict
  with an error of the database API. \<open>None\<close> is refused by a column without a default
  (the phone); for a column with the default \<open>""\<close> the INSERT leaves the value out and
  the default is stored. Every operation below returns the row as re-read after the
  commit, so a text column of a returned row always holds a string; an operation that
  raises leaves the table as it was.
\<close>

function int_digits :: "int \<Rightarrow> string" where
  "int_digits n =
     (if n < 10 then [char_of (48 + n)]
      else int_digits (n div 10) @ [char_of (48 + n mod 10)])"
  by pat_completeness auto
termination by (relation "measure nat") auto

declare int_digits.simps [simp del]

definition int_text :: "int \<Rightarrow> string" where
  "int_text i = (if i < 0 then CHR ''-'' # int_digits (- i) else int_digits i)"

fun sql_text :: "json \<Rightarrow> error + string" where
  "sql_text (JStr s) = Inr s"
| "sql_text (JNum n) =
     (if - (2 ^ 63) \<le> n \<and> n < 2 ^ 63 then Inr (int_text n) else Inl OverflowError)"
| "sql_text (JBool b) = Inr (if b then ''1'' else ''0'')"
| "sql_text JNull = Inl DBAPIError"
| "sql_text (JArr xs) = Inl DBAPIError"
| "sql_text (JObj kvs) = Inl DBAPIError"

definition sql_text_default :: "json \<Rightarrow> error + string" where
  "sql_text_default v = (case v of JNull \<Rightarrow> Inr '''' | _ \<Rightarrow> sql_text v)"

definition save_event :: "string \<Rightarrow> json \<Rightarrow> json \<Rightarrow> store \<Rightarrow> store" where
  "save_event ty p sid db =
     db\<lparr>events := events db @
        [\<lparr>ev_call_sid = py_or sid (JStr ''''), event_type = ty, payload = p\<rparr>]\<rparr>"

text \<open>\<open>find_lead_by_phone\<close> is only called with the string a brain was made with.\<close>

definition find_lead_by_phone :: "string \<Rightarrow> store \<Rightarrow> lead option" where
  "find_lead_by_phone ph db = find (\<lambda>l. lead_phone l = JStr ph) (leads db)"

text \<open>
  \<open>Lead(phone=phone, **fields)\<close> and its INSERT: the columns not named, and those passed
  as \<open>None\<close>, get their defaults; the values are bound in column order and the first one
  refused ends the operation.
\<close>

definition new_field :: "(lead_field \<rightharpoonup> json) \<Rightarrow> lead_field \<Rightarrow> error + lead \<Rightarrow> error + lead" where
  "new_field kw k r =
     bind_err r (\<lambda>l.
       case kw k of
         None \<Rightarrow> Inr l
       | Some v \<Rightarrow> bind_err (sql_text_default v) (\<lambda>s. Inr (set_field k (JStr s) l)))"

definition new_lead :: "nat \<Rightarrow> string \<Rightarrow> (lead_field \<rightharpoonup> json) \<Rightarrow> error + lead" where
  "new_lead i ph kw =
     fold (new_field kw) all_fields
       (Inr \<lparr>lead_id = i, lead_phone = JStr ph, owner_name = JStr '''',
             property_address = JStr '''', interest = JStr '''', price_range = JStr '''',
             timing = JStr '''', condition = JStr '''', owner_status = JStr '''',
             lead_qualified = False\<rparr>)"

text \<open>
  The loop \<open>for k, v in fields.items(): if v not in (None, ""): setattr(lead, k, v)\<close> and
  the UPDATE of the commit that follows it.
\<close>

definition merge_field :: "(lead_field \<rightharpoonup> json) \<Rightarrow> lead_field \<Rightarrow> error + lead \<Rightarrow> error + lead" where
  "merge_field kw k r =
     bind_err r (\<lambda>l.
       case kw k of
         None \<Rightarrow> Inr l
       | Some v \<Rightarrow>
           if v \<noteq> JNull \<and> v \<noteq> JStr '''' then
             bind_err (sql_text v) (\<lambda>s. Inr (set_field k (JStr s) l))
           else Inr l)"

definition merge_fields :: "(lead_field \<rightharpoonup> json) \<Rightarrow> lead \<Rightarrow> error + lead" where
  "merge_fields kw l = fold (merge_field kw) all_fields (Inr l)"

definition put_lead :: "lead \<Rightarrow> store \<Rightarrow> store" where
  "put_lead l db =
     db\<lparr>leads := map (\<lambda>x. if lead_id x = lead_id l then l else x) (leads db)\<rparr>"

text \<open>
  The phone is bound first, as the parameter of the SELECT. A phone of \<open>None\<close> is compared
  with \<open>IS NULL\<close> and selects no row; the INSERT that follows binds its values and is then
  refused, the column being \<open>NOT NULL\<close>.
\<close>

definition upsert_lead ::
  "json \<Rightarrow> (lead_field \<rightharpoonup> json) \<Rightarrow> store \<Rightarrow> error + (lead \<times> store)" where
  "upsert_lead p kw db =
     (if p = JNull then
        bind_err (new_lead (next_id (map lead_id (leads db))) [] kw) (\<lambda>l. Inl DBAPIError)
      else
        bind_err (sql_text p) (\<lambda>ph.
          case find_lead_by_phone ph db of
            None \<Rightarrow>
              bind_err (new_lead (next_id (map lead_id (leads db))) ph kw)
                (\<lambda>l. Inr (l, db\<lparr>leads := leads db @ [l]\<rparr>))
          | Some l0 \<Rightarrow>
              bind_err (merge_fields kw l0) (\<lambda>l. Inr (l, put_lead l db))))"

definition mark_qualified :: "nat \<Rightarrow> bool \<Rightarrow> store \<Rightarrow> store" where
  "mark_qualified i is_qualified db =
     (case find (\<lambda>l. lead_id l = i) (leads db) of
        None \<Rightarrow> db
      | Some l \<Rightarrow> put_lead (l\<lparr>lead_qualified := is_qualified\<rparr>) db)"

text \<open>
  \<open>Callback(lead_id=lead_id, window=window or "next business day", notes=notes)\<close> and
  its INSERT: the window is bound before the notes.
\<close>

definition create_callback ::
  "nat \<Rightarrow> json \<Rightarrow> json \<Rightarrow> store \<Rightarrow> error + (callback \<times> store)" where
  "create_callback i w n db =
     bind_err (sql_text (py_or w (JStr ''next business day''))) (\<lambda>wt.
     bind_err (sql_text_default n) (\<lambda>nt.
       let cb = \<lparr>cb_id = next_id (map cb_id (callbacks db)), cb_lead_id = i,
                  window = JStr wt, cb_notes = JStr nt\<rparr>
       in Inr (cb, db\<lparr>callbacks := callbacks db @ [cb]\<rparr>)))"

section \<open>The turn-based orchestrator (llm/vanessa.py)\<close>

record conversation_state =
  phone :: string
  call_sid :: string
  history :: "(string \<times> string) list"
  elapsed_sec :: int
  closed :: bool
  outcome :: "string option"
  last_response_id :: "string option"

text \<open>
  The four dicts \<open>_decide_and_apply\<close> can return, in the order of its branches. \<open>Dnc\<close> and
  \<open>Dnc_timebox\<close> both carry \<open>"type": "dnc"\<close> and differ in the message; the callback
  dict carries the row's id and window. \<open>None\<close> is the fifth result.
\<close>

datatype outcome =
    Dnc
  | Callback_set nat json
  | Transfer
  | Dnc_timebox

fun outcome_type :: "outcome \<Rightarrow> string" where
  "outcome_type Dnc = ''dnc''"
| "outcome_type (Callback_set i w) = ''callback''"
| "outcome_type Transfer = ''transfer''"
| "outcome_type Dnc_timebox = ''dnc''"

text \<open>
  The three values computed at the head of \<open>_decide_and_apply\<close>, in the order the code
  computes them; the first attribute error ends the call of the function.
\<close>

definition read_interest :: "pydict \<Rightarrow> error + string" where
  "read_interest analysis =
     (case str_lower (py_or (dict_get analysis ''interest'') (JStr '''')) of
        Inl e \<Rightarrow> Inl e
      | Inr v \<Rightarrow> str_strip v)"

definition read_ok :: "pydict \<Rightarrow> string \<Rightarrow> error + bool" where
  "read_ok analysis k =
     (case str_strip (py_or (dict_get analysis k) (JStr '''')) of
        Inl e \<Rightarrow> Inl e
      | Inr s \<Rightarrow> Inr (s \<noteq> []))"

definition decide_and_apply ::
  "conversation_state \<Rightarrow> pydict \<Rightarrow> nat \<Rightarrow> store \<Rightarrow> error + (outcome option \<times> store)" where
  "decide_and_apply st analysis lid db =
     bind_err (read_interest analysis) (\<lambda>i.
     bind_err (read_ok analysis ''price_range'') (\<lambda>price_ok.
     bind_err (read_ok analysis ''timing'') (\<lambda>time_ok.
        if i = ''dnc'' \<or> i = ''no'' then
          Inr (Some Dnc,
               save_event ''OUTCOME_DNC''
                 (JObj [(''lead_id'', JNum (int lid)),
                        (''reason'', dict_get_default analysis ''notes'' (JStr ''''))])
                 (JStr (call_sid st)) db)
        else if i = ''later'' then
          bind_err
            (create_callback lid
               (dict_get_default analysis ''callback_window'' (JStr ''next business day''))
               (dict_get_default analysis ''notes'' (JStr '''')) db)
            (\<lambda>(cb, db1).
               Inr (Some (Callback_set (cb_id cb) (window cb)),
                    save_event ''OUTCOME_CALLBACK''
                      (JObj [(''lead_id'', JNum (int lid)),
                             (''callback_id'', JNum (int (cb_id cb))),
                             (''window'', window cb)])
                      (JStr (call_sid st)) db1))
        else if (i = ''yes'' \<or> i = ''maybe'') \<and> (price_ok \<or> time_ok \<or> elapsed_sec st \<ge> 90) then
          Inr (Some Transfer,
               save_event ''OUTCOME_TRANSFER'' (JObj [(''lead_id'', JNum (int lid))])
                 (JStr (call_sid st)) (mark_qualified lid True db))
        else if elapsed_sec st \<ge> 90 then
          Inr (Some Dnc_timebox,
               save_event ''OUTCOME_DNC''
                 (JObj [(''lead_id'', JNum (int lid)),
                        (''reason'', JStr ''no_clear_interest_within_timebox'')])
                 (JStr (call_sid st)) db)
        else Inr (None, db))))"

text \<open>
  The reasoning backend is outside the repository. A call of \<open>call_llm_text\<close> either raises
  or returns the text and the response id; \<open>loaded\<close> is what \<open>json.loads\<close> makes of the
  stripped text, \<open>None\<close> when it raises.
\<close>

record llm_reply =
  output_text :: string
  response_id :: "string option"
  loaded :: "json option"

type_synonym backend = "(string \<times> string) list \<Rightarrow> string option \<Rightarrow> error + llm_reply"

text \<open>The record substituted when the text is not JSON or not a JSON object.\<close>

definition unknown_record :: pydict where
  "unknown_record =
     [(''interest'', JStr ''unknown''), (''price_range'', JStr ''''), (''timing'', JStr ''''),
      (''condition'', JStr ''''), (''owner_status'', JStr ''unknown''),
      (''callback_window'', JStr ''''), (''notes'', JStr '''')]"

text \<open>The \<open>try\<close> block of \<open>ingest_user_text\<close>: every exception in it is caught.\<close>

definition extract_analysis :: "json option \<Rightarrow> pydict" where
  "extract_analysis parsed =
     (case parsed of
        Some (JObj kvs) \<Rightarrow> kvs
      | _ \<Rightarrow> unknown_record)"

definition update_lead :: "conversation_state \<Rightarrow> pydict \<Rightarrow> store \<Rightarrow> error + store" where
  "update_lead st analysis db =
     bind_err
       (upsert_lead (JStr (phone st))
          [Interest \<mapsto> dict_get_default analysis ''interest'' (JStr ''''),
           Price_range \<mapsto> dict_get_default analysis ''price_range'' (JStr ''''),
           Timing \<mapsto> dict_get_default analysis ''timing'' (JStr ''''),
           Condition \<mapsto> dict_get_default analysis ''condition'' (JStr ''''),
           Owner_status \<mapsto> dict_get_default analysis ''owner_status'' (JStr '''')]
          db)
       (\<lambda>(l, db1). Inr db1)"

text \<open>
  \<open>_lead_snapshot\<close> copies the columns id, phone, interest, price_range, timing, condition,
  owner_status and qualified of the row into a dict, or gives the empty dict; here it is
  the row itself.
\<close>

definition lead_snapshot :: "conversation_state \<Rightarrow> store \<Rightarrow> lead option" where
  "lead_snapshot st db = find_lead_by_phone (phone st) db"

definition append_user ::
  "conversation_state \<Rightarrow> string \<Rightarrow> store \<Rightarrow> conversation_state \<times> store" where
  "append_user st text db =
     (st\<lparr>history := history st @ [(''user'', text)]\<rparr>,
      save_event ''TURN''
        (JObj [(''from'', JStr ''user''), (''text'', JStr text),
               (''elapsed'', JNum (elapsed_sec st))])
        (JStr (call_sid st)) db)"

text \<open>What \<open>ingest_user_text\<close> returns: the closed dict, or the dict of a turn.\<close>

datatype response =
    Closed_status "string option"
  | Turn_result "lead option" pydict "outcome option" int

definition json_of_id :: "string option \<Rightarrow> json" where
  "json_of_id r = (case r of None \<Rightarrow> JNull | Some i \<Rightarrow> JStr i)"

text \<open>
  The line \<open>outcome = self._decide_and_apply(analysis, lead_id) if lead_id else None\<close>:
  the id is read from the snapshot, and an empty snapshot or the id 0 skips the decision.
\<close>

definition decide_if_lead ::
  "conversation_state \<Rightarrow> pydict \<Rightarrow> lead option \<Rightarrow> store \<Rightarrow> error + (outcome option \<times> store)" where
  "decide_if_lead st analysis lead_info db =
     (case lead_info of
        None \<Rightarrow> Inr (None, db)
      | Some l \<Rightarrow>
          if lead_id l \<noteq> 0 then decide_and_apply st analysis (lead_id l) db
          else Inr (None, db))"

text \<open>
  The rest of \<open>ingest_user_text\<close> once the lead row is updated: the snapshot, the decision
  and the dict returned.
\<close>

definition ingest_decide ::
  "conversation_state \<Rightarrow> pydict \<Rightarrow> store \<Rightarrow> (error + response) \<times> conversation_state \<times> store" where
  "ingest_decide st3 analysis db3 =
     (let lead_info = lead_snapshot st3 db3
      in case decide_if_lead st3 analysis lead_info db3 of
           Inl e \<Rightarrow> (Inl e, st3, db3)
         | Inr (None, db4) \<Rightarrow>
             (Inr (Turn_result lead_info analysis None (elapsed_sec st3)), st3, db4)
         | Inr (Some oc, db4) \<Rightarrow>
             (let st4 = st3\<lparr>outcome := Some (outcome_type oc), closed := True\<rparr>
              in (Inr (Turn_result (lead_snapshot st4 db4) analysis (Some oc) (elapsed_sec st4)),
                  st4, db4)))"

definition ingest_reply ::
  "llm_reply \<Rightarrow> conversation_state \<Rightarrow> store \<Rightarrow>
     (error + response) \<times> conversation_state \<times> store" where
  "ingest_reply r st2 db1 =
     (let st3 = st2\<lparr>last_response_id := response_id r\<rparr>;
          db2 = save_event ''RAW_LLM''
                  (JObj [(''text'', JStr (output_text r)),
                         (''response_id'', json_of_id (response_id r))])
                  (JStr (call_sid st3)) db1;
          analysis = extract_analysis (loaded r)
      in case update_lead st3 analysis db2 of
           Inl e \<Rightarrow> (Inl e, st3, db2)
         | Inr db3 \<Rightarrow> ingest_decide st3 analysis db3)"

definition ingest_user_text ::
  "backend \<Rightarrow> string \<Rightarrow> int \<Rightarrow> conversation_state \<Rightarrow> store \<Rightarrow>
     (error + response) \<times> conversation_state \<times> store" where
  "ingest_user_text call_llm_text text approx_seconds st db =
     (if closed st then (Inr (Closed_status (outcome st)), st, db)
      else
        let (st1, db1) = append_user st text db;
            st2 = st1\<lparr>elapsed_sec := elapsed_sec st1 + approx_seconds\<rparr>
        in case call_llm_text (drop (length (history st2) - 6) (history st2))
                  (last_response_id st2) of
             Inl e \<Rightarrow> (Inl e, st2, db1)
           | Inr r \<Rightarrow> ingest_reply r st2 db1)"

text \<open>\<open>VanessaBrain.__init__\<close>: a fresh state, and the lead row is made sure to exist.\<close>

definition new_brain ::
  "string \<Rightarrow> string \<Rightarrow> store \<Rightarrow> error + (conversation_state \<times> store)" where
  "new_brain p sid db =
     bind_err (upsert_lead (JStr p) Map.empty db)
       (\<lambda>(l, db1).
          Inr (\<lparr>phone = p, call_sid = sid, history = [], elapsed_sec = 0, closed = False,
                outcome = None, last_response_id = None\<rparr>, db1))"

section \<open>The streaming bridge (llm/realtime_openai.py)\<close>

text \<open>
  What the bridge acts on besides the store: the calls redirected through \<open>on_transfer\<close>
  (the Twilio update in \<open>do_transfer\<close>, taken to succeed), the frames sent to the
  reasoning session, the frames of the reasoning session received and not yet read, and
  how often the session was closed. \<open>drains\<close> lists the \<open>final\<close> flag of every call of
  \<open>_drain_ai_events\<close>; the Python keeps no such list, it is here to count the calls.
\<close>

datatype ai_out =
  Session_update | Buffer_create | Buffer_append json | Response_create | Buffer_commit

record world =
  wdb :: store
  redirects :: "json list"
  ai_sent :: "ai_out list"
  inbox :: "json option list"
  drains :: "bool list"
  ai_closed :: nat

record bridge =
  bridge_call_sid :: json
  bridge_phone :: json
  bridge_qualified :: bool
  ai_ws :: bool



datatype flow = Next | Break | Raised error

text \<open>
  The branch for the tool \<open>lead_detect\<close>, in its three steps: the fields are merged into
  the lead; an interest of yes or maybe sets the flag of the bridge and then that of the
  lead; an interest of later with a callback window creates the callback and logs it. A
  step that raises ends the branch with what was done before it.
\<close>

definition detect_qualify :: "pydict \<Rightarrow> bridge \<Rightarrow> world \<Rightarrow> flow \<times> bridge \<times> world" where
  "detect_qualify args b w =
     (if dict_get args ''interest'' = JStr ''yes''
         \<or> dict_get args ''interest'' = JStr ''maybe'' then
        (case upsert_lead (bridge_phone b) Map.empty (wdb w) of
           Inl e \<Rightarrow> (Raised e, b\<lparr>bridge_qualified := True\<rparr>, w)
         | Inr (l, d) \<Rightarrow>
             (Next, b\<lparr>bridge_qualified := True\<rparr>,
              w\<lparr>wdb := mark_qualified (lead_id l) True d\<rparr>))
      else (Next, b, w))"

definition detect_create :: "nat \<Rightarrow> pydict \<Rightarrow> bridge \<Rightarrow> world \<Rightarrow> flow \<times> bridge \<times> world" where
  "detect_create lid args b w =
     (case create_callback lid (dict_get args ''callback_window'')
             (dict_get_default args ''notes'' (JStr '''')) (wdb w) of
        Inl e \<Rightarrow> (Raised e, b, w)
      | Inr (cb, d1) \<Rightarrow>
          (Next, b,
           w\<lparr>wdb := save_event ''OUTCOME_CALLBACK''
                     (JObj [(''window'', dict_get args ''callback_window'')])
                     (bridge_call_sid b) d1\<rparr>))"

definition detect_callback :: "pydict \<Rightarrow> bridge \<Rightarrow> world \<Rightarrow> flow \<times> bridge \<times> world" where
  "detect_callback args b w =
     (if dict_get args ''interest'' = JStr ''later''
         \<and> truthy (dict_get args ''callback_window'') then
        (case upsert_lead (bridge_phone b) Map.empty (wdb w) of
           Inl e \<Rightarrow> (Raised e, b, w)
         | Inr (l, d) \<Rightarrow> detect_create (lead_id l) args b (w\<lparr>wdb := d\<rparr>))
      else (Next, b, w))"

definition lead_detect :: "pydict \<Rightarrow> bridge \<Rightarrow> world \<Rightarrow> flow \<times> bridge \<times> world" where
  "lead_detect args b w =
     (case upsert_lead (bridge_phone b)
             [Interest \<mapsto> dict_get_default args ''interest'' (JStr ''''),
              Price_range \<mapsto> dict_get_default args ''price_range'' (JStr ''''),
              Timing \<mapsto> dict_get_default args ''timing'' (JStr ''''),
              Condition \<mapsto> dict_get_default args ''condition'' (JStr ''''),
              Owner_status \<mapsto> dict_get_default args ''owner_status'' (JStr '''')]
             (wdb w) of
        Inl e \<Rightarrow> (Raised e, b, w)
      | Inr (l, d) \<Rightarrow>
          (case detect_qualify args b (w\<lparr>wdb := d\<rparr>) of
             (Next, b1, w1) \<Rightarrow> detect_callback args b1 w1
           | (Break, b1, w1) \<Rightarrow> (Break, b1, w1)
           | (Raised e, b1, w1) \<Rightarrow> (Raised e, b1, w1)))"

definition request_transfer :: "pydict \<Rightarrow> bridge \<Rightarrow> world \<Rightarrow> flow \<times> bridge \<times> world" where
  "request_transfer args b w =
     (if truthy (dict_get args ''consent'') \<and> bridge_qualified b then
        (Next, b,
         w\<lparr>wdb := save_event ''OUTCOME_TRANSFER'' (JObj [(''consent'', JBool True)])
                   (bridge_call_sid b) (wdb w),
           redirects := redirects w @ [bridge_call_sid b]\<rparr>)
      else (Next, b, w))"

text \<open>
  The branch for \<open>response.function_call\<close>. The tool call is logged first; then
  \<open>args.get\<close> raises when the arguments are not a dict.
\<close>

definition function_call :: "pydict \<Rightarrow> bridge \<Rightarrow> world \<Rightarrow> flow \<times> bridge \<times> world" where
  "function_call ev b w =
     (case map_of ev ''name'' of
        None \<Rightarrow> (Raised KeyError, b, w)
      | Some fn \<Rightarrow>
          (let args = dict_get_default ev ''arguments'' (JObj []);
               w1 = w\<lparr>wdb := save_event ''AI_TOOL_CALL''
                               (JObj [(''name'', fn), (''args'', args)])
                               (bridge_call_sid b) (wdb w)\<rparr>
           in if fn = JStr ''lead_detect'' then
                (case args of
                   JObj kvs \<Rightarrow> lead_detect kvs b w1
                 | _ \<Rightarrow> (Raised AttributeError, b, w1))
              else if fn = JStr ''request_transfer'' then
                (case args of
                   JObj kvs \<Rightarrow> request_transfer kvs b w1
                 | _ \<Rightarrow> (Raised AttributeError, b, w1))
              else (Next, b, w1)))"

text \<open>The body of the loop of \<open>_drain_ai_events\<close> for one received frame.\<close>

definition handle_ai_frame :: "json option \<Rightarrow> bridge \<Rightarrow> world \<Rightarrow> flow \<times> bridge \<times> world" where
  "handle_ai_frame raw b w =
     (case raw of
        None \<Rightarrow> (Raised JSONDecodeError, b, w)
      | Some (JObj ev) \<Rightarrow>
          (let t = dict_get ev ''type''
           in if t = JStr ''response.output_text.delta'' then (Next, b, w)
              else if t = JStr ''response.function_call'' then function_call ev b w
              else if t = JStr ''response.completed'' then (Break, b, w)
              else if t = JStr ''response.error'' then
                (Break, b,
                 w\<lparr>wdb := save_event ''AI_ERROR'' (JObj [(''error'', JObj ev)])
                           (bridge_call_sid b) (wdb w)\<rparr>)
              else (Next, b, w))
      | Some _ \<Rightarrow> (Raised AttributeError, b, w))"










section \<open>The media stream socket (transport/twilio_quart.py)\<close>






text \<open>
  How the socket ends after the last message: \<open>receive\<close> returns \<open>None\<close>, or it is
  cancelled (not an \<open>Exception\<close>, so only \<open>finally\<close> runs), or it raises.
\<close>

datatype ws_end = Recv_none | Recv_cancelled | Recv_raises



section \<open>Calls as sequences of turns, and what is observed of them\<close>

text \<open>
  A call on the turn-based path is a sequence of invocations of \<open>ingest_user_text\<close> on one
  brain, each with the utterance, the seconds to add and what the backend does that turn.
\<close>

fun ingest_all ::
  "(backend \<times> string \<times> int) list \<Rightarrow> conversation_state \<Rightarrow> store \<Rightarrow>
     (error + response) list \<times> conversation_state \<times> store" where
  "ingest_all [] st d = ([], st, d)"
| "ingest_all ((llm, utt, secs) # rest) st d =
     (case ingest_user_text llm utt secs st d of
        (r, st1, d1) \<Rightarrow>
          (case ingest_all rest st1 d1 of
             (rs, st2, d2) \<Rightarrow> (r # rs, st2, d2)))"

text \<open>The outcome a returned dict carries; \<open>None\<close> stands for \<open>{"type": "continue"}\<close>.\<close>

fun returned_outcome :: "error + response \<Rightarrow> outcome option" where
  "returned_outcome (Inr (Turn_result l a oc n)) = oc"
| "returned_outcome (Inr (Closed_status t)) = None"
| "returned_outcome (Inl e) = None"

definition is_outcome_event :: "call_event \<Rightarrow> bool" where
  "is_outcome_event e =
     (event_type e = ''OUTCOME_DNC'' \<or> event_type e = ''OUTCOME_CALLBACK''
      \<or> event_type e = ''OUTCOME_TRANSFER'')"

definition outcome_events :: "store \<Rightarrow> call_event list" where
  "outcome_events d = filter is_outcome_event (events d)"

text \<open>The audit event of the timeout exit, for a call sid and a lead id.\<close>

definition timebox_event :: "string \<Rightarrow> nat \<Rightarrow> call_event" where
  "timebox_event sid lid =
     \<lparr>ev_call_sid = py_or (JStr sid) (JStr ''''), event_type = ''OUTCOME_DNC'',
      payload = JObj [(''lead_id'', JNum (int lid)),
                      (''reason'', JStr ''no_clear_interest_within_timebox'')]\<rparr>"

fun is_object :: "json option \<Rightarrow> bool" where
  "is_object (Some (JObj kvs)) = True"
| "is_object _ = False"

definition count_events :: "string \<Rightarrow> store \<Rightarrow> nat" where
  "count_events ty d = length (filter (\<lambda>e. event_type e = ty) (events d))"

section \<open>Example inputs\<close>

definition ex_lead :: lead where
  "ex_lead = \<lparr>lead_id = 1, lead_phone = JStr ''+15550100'', owner_name = JStr '''',
      property_address = JStr '''', interest = JStr ''maybe'', price_range = JStr ''350-380k'',
      timing = JStr '''', condition = JStr '''', owner_status = JStr '''',
      lead_qualified = False\<rparr>"

definition ex_db :: store where
  "ex_db = \<lparr>leads = [ex_lead], callbacks = [], events = []\<rparr>"

definition ex_state :: conversation_state where
  "ex_state = \<lparr>phone = ''+15550100'', call_sid = ''CA1'', history = [], elapsed_sec = 0,
      closed = False, outcome = None, last_response_id = None\<rparr>"

text \<open>A backend that answers with a JSON object, and one that answers in prose.\<close>

definition ex_llm_dnc :: backend where
  \<open>ex_llm_dnc msgs prev =
     Inr \<lparr>output_text = ''{"interest": "dnc"}'', response_id = Some ''resp_1'',
          loaded = Some (JObj [(''interest'', JStr ''dnc'')])\<rparr>\<close>

definition ex_llm_prose :: backend where
  "ex_llm_prose msgs prev =
     Inr \<lparr>output_text = ''They did not say.'', response_id = Some ''resp_2'',
          loaded = None\<rparr>"

text \<open>Three turns of 45 seconds each, answered in prose every time.\<close>

definition ex_turns :: "(backend \<times> string \<times> int) list" where
  "ex_turns = [(ex_llm_prose, ''who is this?'', 45), (ex_llm_prose, ''what company?'', 45),
               (ex_llm_prose, ''hello?'', 45)]"

text \<open>A bridge after \<open>start\<close>, a world with one lead, and frames of either side.\<close>

definition ex_bridge :: bridge where
  "ex_bridge = \<lparr>bridge_call_sid = JStr ''CA1'', bridge_phone = JStr ''+15550100'',
                 bridge_qualified = False, ai_ws = True\<rparr>"

definition ex_world :: world where
  "ex_world = \<lparr>wdb = ex_db, redirects = [], ai_sent = [], inbox = [], drains = [],
                ai_closed = 0\<rparr>"

definition tool_call :: "string \<Rightarrow> pydict \<Rightarrow> json option" where
  "tool_call fn args =
     Some (JObj [(''type'', JStr ''response.function_call''), (''name'', JStr fn),
                 (''arguments'', JObj args)])"




section \<open>The store: what each operation leaves alone\<close>

lemma bind_err_Inr [simp]: "bind_err (Inr x) f = f x"
  by (simp add: bind_err_def)

lemma bind_err_Inl [simp]: "bind_err (Inl e) f = Inl e"
  by (simp add: bind_err_def)

lemma bind_err_eq_Inr: "bind_err m f = Inr y \<longleftrightarrow> (\<exists>x. m = Inr x \<and> f x = Inr y)"
  by (cases m) simp_all

lemma bind_err_eq_Inl:
  "bind_err m f = Inl e \<longleftrightarrow> m = Inl e \<or> (\<exists>x. m = Inr x \<and> f x = Inl e)"
  by (cases m) simp_all

lemma events_save_event [simp]:
  "events (save_event ty p sid d) =
     events d @ [\<lparr>ev_call_sid = py_or sid (JStr ''''), event_type = ty, payload = p\<rparr>]"
  "leads (save_event ty p sid d) = leads d"
  "callbacks (save_event ty p sid d) = callbacks d"
  by (simp_all add: save_event_def)

lemma put_lead_frame [simp]:
  "events (put_lead l d) = events d" "callbacks (put_lead l d) = callbacks d"
  by (simp_all add: put_lead_def)

lemma upsert_lead_frame:
  assumes "upsert_lead p kw d = Inr (l, d')"
  shows "events d' = events d" "callbacks d' = callbacks d"
  using assms
  by (auto simp: upsert_lead_def bind_err_eq_Inr split: option.splits if_splits)

lemma mark_qualified_frame [simp]:
  "events (mark_qualified i q d) = events d"
  "callbacks (mark_qualified i q d) = callbacks d"
  by (simp_all add: mark_qualified_def split: option.splits)

lemma create_callback_Inr:
  assumes "create_callback i w n d = Inr (cb, d')"
  shows "events d' = events d" "leads d' = leads d" "callbacks d' = callbacks d @ [cb]"
    "cb_id cb = next_id (map cb_id (callbacks d))" "cb_lead_id cb = i"
    "sql_text (py_or w (JStr ''next business day'')) = Inr wt \<Longrightarrow> window cb = JStr wt"
    "sql_text_default n = Inr nt \<Longrightarrow> cb_notes cb = JStr nt"
  using assms
  by (auto simp: create_callback_def bind_err_eq_Inr Let_def)

lemma update_lead_frame:
  assumes "update_lead st a d = Inr d'"
  shows "events d' = events d" "callbacks d' = callbacks d"
  using assms upsert_lead_frame
  by (auto simp: update_lead_def bind_err_eq_Inr)

section \<open>Merge on write\<close>

lemma get_set_field:
  "get_field k (set_field k' v l) = (if k = k' then v else get_field k l)"
  by (cases k; cases k') simp_all

lemma set_field_keys [simp]:
  "lead_id (set_field k v l) = lead_id l"
  "lead_phone (set_field k v l) = lead_phone l"
  "lead_qualified (set_field k v l) = lead_qualified l"
  by (cases k; simp)+

text \<open>What the merge loop makes of one column.\<close>

lemma merge_field_Inl [simp]: "merge_field kw k (Inl e) = Inl e"
  by (simp add: merge_field_def)

lemma fold_merge_Inl [simp]: "fold (merge_field kw) ks (Inl e) = Inl e"
  by (induction ks) simp_all

lemma merge_field_Inr:
  "merge_field kw k (Inr l) =
     (case kw k of
        None \<Rightarrow> Inr l
      | Some v \<Rightarrow>
          if v = JNull \<or> v = JStr '''' then Inr l
          else (case sql_text v of Inl e \<Rightarrow> Inl e | Inr s \<Rightarrow> Inr (set_field k (JStr s) l)))"
  by (simp add: merge_field_def bind_err_def split: option.splits sum.splits)

lemma fold_merge_ok:
  assumes "distinct ks"
    and "\<forall>k\<in>set ks. \<forall>v. kw k = Some v \<and> v \<noteq> JNull \<and> v \<noteq> JStr '''' \<longrightarrow> (\<exists>s. sql_text v = Inr s)"
  shows "\<exists>l'. fold (merge_field kw) ks (Inr l) = Inr l'
            \<and> lead_id l' = lead_id l \<and> lead_phone l' = lead_phone l
            \<and> lead_qualified l' = lead_qualified l
            \<and> (\<forall>k. get_field k l' =
                 (if k \<in> set ks then
                    (case kw k of
                       None \<Rightarrow> get_field k l
                     | Some v \<Rightarrow>
                         if v = JNull \<or> v = JStr '''' then get_field k l
                         else (case sql_text v of Inl e \<Rightarrow> get_field k l | Inr s \<Rightarrow> JStr s))
                  else get_field k l))"
  using assms
proof (induction ks arbitrary: l)
  case Nil
  then show ?case by simp
next
  case (Cons k' ks)
  have d: "distinct ks" "k' \<notin> set ks" using Cons.prems(1) by simp_all
  have rest: "\<forall>k\<in>set ks. \<forall>v. kw k = Some v \<and> v \<noteq> JNull \<and> v \<noteq> JStr '''' \<longrightarrow> (\<exists>s. sql_text v = Inr s)"
    using Cons.prems(2) by simp
  obtain l1 where l1: "merge_field kw k' (Inr l) = Inr l1"
    and keys: "lead_id l1 = lead_id l" "lead_phone l1 = lead_phone l"
      "lead_qualified l1 = lead_qualified l"
    and g1: "\<forall>k. get_field k l1 =
                 (if k = k' then
                    (case kw k of
                       None \<Rightarrow> get_field k l
                     | Some v \<Rightarrow>
                         if v = JNull \<or> v = JStr '''' then get_field k l
                         else (case sql_text v of Inl e \<Rightarrow> get_field k l | Inr s \<Rightarrow> JStr s))
                  else get_field k l)"
  proof (cases "kw k'")
    case None
    then show ?thesis using that[of l] by (simp add: merge_field_Inr)
  next
    case (Some v)
    show ?thesis
    proof (cases "v = JNull \<or> v = JStr ''''")
      case True
      then show ?thesis using that[of l] Some by (auto simp: merge_field_Inr)
    next
      case False
      then obtain s where s: "sql_text v = Inr s"
        using Cons.prems(2) Some by auto
      show ?thesis
        using that[of "set_field k' (JStr s) l"] Some False s
        by (auto simp: merge_field_Inr get_set_field simp del: get_field.simps)
    qed
  qed
  from Cons.IH[OF d(1) rest, of l1]
  obtain l' where l': "fold (merge_field kw) ks (Inr l1) = Inr l'"
    and keys': "lead_id l' = lead_id l1" "lead_phone l' = lead_phone l1"
      "lead_qualified l' = lead_qualified l1"
    and g': "\<forall>k. get_field k l' =
                 (if k \<in> set ks then
                    (case kw k of
                       None \<Rightarrow> get_field k l1
                     | Some v \<Rightarrow>
                         if v = JNull \<or> v = JStr '''' then get_field k l1
                         else (case sql_text v of Inl e \<Rightarrow> get_field k l1 | Inr s \<Rightarrow> JStr s))
                  else get_field k l1)"
    by blast
  have "\<forall>k. get_field k l' =
                 (if k \<in> set (k' # ks) then
                    (case kw k of
                       None \<Rightarrow> get_field k l
                     | Some v \<Rightarrow>
                         if v = JNull \<or> v = JStr '''' then get_field k l
                         else (case sql_text v of Inl e \<Rightarrow> get_field k l | Inr s \<Rightarrow> JStr s))
                  else get_field k l)"
  proof
    fix k
    show "get_field k l' =
                 (if k \<in> set (k' # ks) then
                    (case kw k of
                       None \<Rightarrow> get_field k l
                     | Some v \<Rightarrow>
                         if v = JNull \<or> v = JStr '''' then get_field k l
                         else (case sql_text v of Inl e \<Rightarrow> get_field k l | Inr s \<Rightarrow> JStr s))
                  else get_field k l)"
      using spec[OF g', of k] spec[OF g1, of k] d(2)
      by (cases "k = k'") (auto simp del: get_field.simps split: option.splits sum.splits)
  qed
  then show ?case
    using l1 l' keys keys' by (simp del: get_field.simps)
qed

lemma fold_merge_fail:
  assumes "k \<in> set ks" "kw k = Some v" "v \<noteq> JNull" "v \<noteq> JStr ''''" "sql_text v = Inl e"
  shows "\<exists>e'. fold (merge_field kw) ks r = Inl e'"
  using assms(1)
proof (induction ks arbitrary: r)
  case Nil
  then show ?case by simp
next
  case (Cons k' ks)
  show ?case
  proof (cases "k = k'")
    case True
    have "\<exists>e'. merge_field kw k' r = Inl e'"
      using assms(2-5) True by (cases r) (simp_all add: merge_field_Inr)
    then show ?thesis by auto
  next
    case False
    then show ?thesis using Cons by simp
  qed
qed

lemma all_fields_complete: "k \<in> set all_fields" "distinct all_fields"
  by (cases k; simp add: all_fields_def)+

lemma find_put_phone:
  "find (\<lambda>x. lead_phone x = p) ls = Some l0 \<Longrightarrow> lead_phone l = p \<Longrightarrow>
   lead_id l = lead_id l0 \<Longrightarrow>
   find (\<lambda>x. lead_phone x = p) (map (\<lambda>x. if lead_id x = lead_id l then l else x) ls) = Some l"
  by (induction ls) (auto split: if_splits)

lemma find_put_id:
  "find (\<lambda>x. lead_id x = i) ls = Some l0 \<Longrightarrow> lead_id l = i \<Longrightarrow>
   find (\<lambda>x. lead_id x = i) (map (\<lambda>x. if lead_id x = lead_id l then l else x) ls) = Some l"
  by (induction ls) (auto split: if_splits)

text \<open>An upsert whose values are all strings is never refused.\<close>

lemma new_field_Inl [simp]: "new_field kw k (Inl e) = Inl e"
  by (simp add: new_field_def)

lemma fold_new_ok:
  assumes "\<forall>k v. kw k = Some v \<longrightarrow> (\<exists>s. v = JStr s)"
  shows "\<exists>l'. fold (new_field kw) ks (Inr l) = Inr l'"
proof (induction ks arbitrary: l)
  case Nil
  then show ?case by simp
next
  case (Cons k ks)
  have "\<exists>l1. new_field kw k (Inr l) = Inr l1"
  proof (cases "kw k")
    case None
    then show ?thesis by (simp add: new_field_def)
  next
    case (Some v)
    then obtain s where "v = JStr s" using assms by blast
    then show ?thesis using Some by (simp add: new_field_def sql_text_default_def)
  qed
  then show ?case using Cons by auto
qed

lemma upsert_lead_strings:
  assumes "\<forall>k v. kw k = Some v \<longrightarrow> (\<exists>s. v = JStr s)"
  shows "\<exists>l d'. upsert_lead (JStr ph) kw d = Inr (l, d')"
proof (cases "find_lead_by_phone ph d")
  case None
  obtain l where "new_lead (next_id (map lead_id (leads d))) ph kw = Inr l"
    using fold_new_ok[OF assms] unfolding new_lead_def by blast
  then show ?thesis using None by (simp add: upsert_lead_def)
next
  case (Some l0)
  have "\<forall>k\<in>set all_fields. \<forall>v. kw k = Some v \<and> v \<noteq> JNull \<and> v \<noteq> JStr '''' \<longrightarrow> (\<exists>s. sql_text v = Inr s)"
    using assms by fastforce
  from fold_merge_ok[OF all_fields_complete(2) this, of l0]
  obtain l where "merge_fields kw l0 = Inr l"
    unfolding merge_fields_def by blast
  then show ?thesis using Some by (simp add: upsert_lead_def)
qed

text \<open>
  C3, as amended. Upserting into an existing lead, when the database accepts every
  incoming value other than \<open>None\<close> and the empty string: the row returned is the row
  stored under the phone, with the id and the qualified flag it had; a column whose
  incoming value is \<open>None\<close> or the empty string, or that is not passed, keeps its stored
  value; a non-empty incoming string replaces the stored value; any other incoming value
  replaces it by the text the database makes of it. When the database refuses one of the
  incoming values, the upsert raises and stores nothing.
\<close>

theorem upsert_lead_merge_on_write:
  assumes "sql_text p = Inr ph" and "find_lead_by_phone ph d = Some l0"
  shows "((\<forall>k v. kw k = Some v \<and> v \<noteq> JNull \<and> v \<noteq> JStr '''' \<longrightarrow> (\<exists>s. sql_text v = Inr s)) \<longrightarrow>
            (\<exists>l d'. upsert_lead p kw d = Inr (l, d')
               \<and> find_lead_by_phone ph d' = Some l
               \<and> lead_id l = lead_id l0 \<and> lead_qualified l = lead_qualified l0
               \<and> (\<forall>k. kw k = None \<or> kw k = Some JNull \<or> kw k = Some (JStr '''') \<longrightarrow>
                        get_field k l = get_field k l0)
               \<and> (\<forall>k s. kw k = Some (JStr s) \<and> s \<noteq> [] \<longrightarrow> get_field k l = JStr s)
               \<and> (\<forall>k v s. kw k = Some v \<and> v \<noteq> JNull \<and> v \<noteq> JStr '''' \<and> sql_text v = Inr s \<longrightarrow>
                        get_field k l = JStr s)))
       \<and> ((\<exists>k v e. kw k = Some v \<and> v \<noteq> JNull \<and> v \<noteq> JStr '''' \<and> sql_text v = Inl e) \<longrightarrow>
            (\<exists>e. upsert_lead p kw d = Inl e))"
proof (intro conjI impI)
  assume ok: "\<forall>k v. kw k = Some v \<and> v \<noteq> JNull \<and> v \<noteq> JStr '''' \<longrightarrow> (\<exists>s. sql_text v = Inr s)"
  have ph: "lead_phone l0 = JStr ph"
    using assms(2) by (auto simp: find_lead_by_phone_def find_Some_iff)
  have "\<forall>k\<in>set all_fields. \<forall>v. kw k = Some v \<and> v \<noteq> JNull \<and> v \<noteq> JStr '''' \<longrightarrow> (\<exists>s. sql_text v = Inr s)"
    using ok by blast
  from fold_merge_ok[OF all_fields_complete(2) this, of l0]
  obtain l where l: "merge_fields kw l0 = Inr l"
    and keys: "lead_id l = lead_id l0" "lead_phone l = lead_phone l0"
      "lead_qualified l = lead_qualified l0"
    and g: "\<forall>k. get_field k l =
                 (case kw k of
                    None \<Rightarrow> get_field k l0
                  | Some v \<Rightarrow>
                      if v = JNull \<or> v = JStr '''' then get_field k l0
                      else (case sql_text v of Inl e \<Rightarrow> get_field k l0 | Inr s \<Rightarrow> JStr s))"
    unfolding merge_fields_def by (auto simp: all_fields_complete(1) simp del: get_field.simps)
  have up: "upsert_lead p kw d = Inr (l, put_lead l d)"
    using assms l by (auto simp add: upsert_lead_def)
  have fnd: "find_lead_by_phone ph (put_lead l d) = Some l"
    using find_put_phone[of "JStr ph" "leads d" l0 l] assms(2) ph keys
    by (simp add: find_lead_by_phone_def put_lead_def)
  have g1: "\<forall>k. kw k = None \<or> kw k = Some JNull \<or> kw k = Some (JStr '''') \<longrightarrow>
                        get_field k l = get_field k l0"
    using g by (auto simp del: get_field.simps)
  have g3: "\<forall>k v s. kw k = Some v \<and> v \<noteq> JNull \<and> v \<noteq> JStr '''' \<and> sql_text v = Inr s \<longrightarrow>
                        get_field k l = JStr s"
    using g by (auto simp del: get_field.simps)
  have g2: "\<forall>k s. kw k = Some (JStr s) \<and> s \<noteq> [] \<longrightarrow> get_field k l = JStr s"
  proof (intro allI impI)
    fix k s
    assume a: "kw k = Some (JStr s) \<and> s \<noteq> []"
    have "kw k = Some (JStr s) \<and> JStr s \<noteq> JNull \<and> JStr s \<noteq> JStr '''' \<and> sql_text (JStr s) = Inr s"
      using a by simp
    then show "get_field k l = JStr s"
      using g3 by blast
  qed
  show "\<exists>l d'. upsert_lead p kw d = Inr (l, d')
               \<and> find_lead_by_phone ph d' = Some l
               \<and> lead_id l = lead_id l0 \<and> lead_qualified l = lead_qualified l0
               \<and> (\<forall>k. kw k = None \<or> kw k = Some JNull \<or> kw k = Some (JStr '''') \<longrightarrow>
                        get_field k l = get_field k l0)
               \<and> (\<forall>k s. kw k = Some (JStr s) \<and> s \<noteq> [] \<longrightarrow> get_field k l = JStr s)
               \<and> (\<forall>k v s. kw k = Some v \<and> v \<noteq> JNull \<and> v \<noteq> JStr '''' \<and> sql_text v = Inr s \<longrightarrow>
                        get_field k l = JStr s)"
    using up fnd keys g1 g2 g3 by blast
next
  assume "\<exists>k v e. kw k = Some v \<and> v \<noteq> JNull \<and> v \<noteq> JStr '''' \<and> sql_text v = Inl e"
  then obtain k v e where kv: "kw k = Some v" "v \<noteq> JNull" "v \<noteq> JStr ''''" "sql_text v = Inl e"
    by blast
  from fold_merge_fail[of k all_fields kw v e "Inr l0", OF all_fields_complete(1) kv]
  obtain e' where "merge_fields kw l0 = Inl e'"
    unfolding merge_fields_def by blast
  then show "\<exists>e. upsert_lead p kw d = Inl e"
    using assms by (auto simp add: upsert_lead_def)
qed

theorem upsert_lead_merge_on_write_witness:
  "find_lead_by_phone ''+15550100'' ex_db = Some ex_lead
   \<and> price_range ex_lead = JStr ''350-380k''
   \<and> upsert_lead (JStr ''+15550100'') [Price_range \<mapsto> JStr ''''] ex_db = Inr (ex_lead, ex_db)
   \<and> upsert_lead (JStr ''+15550100'') [Price_range \<mapsto> JNull] ex_db = Inr (ex_lead, ex_db)
   \<and> upsert_lead (JStr ''+15550100'') [Price_range \<mapsto> JStr ''400k''] ex_db
       = Inr (ex_lead\<lparr>price_range := JStr ''400k''\<rparr>,
              ex_db\<lparr>leads := [ex_lead\<lparr>price_range := JStr ''400k''\<rparr>]\<rparr>)
   \<and> (\<exists>l d'. upsert_lead (JStr ''+15550100'') [Price_range \<mapsto> JStr ''400k''] ex_db = Inr (l, d')
         \<and> find_lead_by_phone ''+15550100'' d' = Some l
         \<and> price_range l = JStr ''400k'' \<and> interest l = JStr ''maybe'')"
proof -
  have h: "find_lead_by_phone ''+15550100'' ex_db = Some ex_lead"
    by code_simp
  have pr: "price_range ex_lead = JStr ''350-380k''" "interest ex_lead = JStr ''maybe''"
    by (simp_all add: ex_lead_def)
  have a: "upsert_lead (JStr ''+15550100'') [Price_range \<mapsto> JStr ''''] ex_db = Inr (ex_lead, ex_db)"
    by code_simp
  have b: "upsert_lead (JStr ''+15550100'') [Price_range \<mapsto> JNull] ex_db = Inr (ex_lead, ex_db)"
    by code_simp
  have c: "upsert_lead (JStr ''+15550100'') [Price_range \<mapsto> JStr ''400k''] ex_db
       = Inr (ex_lead\<lparr>price_range := JStr ''400k''\<rparr>,
              ex_db\<lparr>leads := [ex_lead\<lparr>price_range := JStr ''400k''\<rparr>]\<rparr>)"
    by code_simp
  have t: "sql_text (JStr ''+15550100'') = Inr ''+15550100''"
    by simp
  have ok: "\<forall>k v. [Price_range \<mapsto> JStr ''400k''] k = Some v \<and> v \<noteq> JNull \<and> v \<noteq> JStr ''''
              \<longrightarrow> (\<exists>s. sql_text v = Inr s)"
    by (auto split: if_splits)
  from upsert_lead_merge_on_write[OF t h, of "[Price_range \<mapsto> JStr ''400k'']"] ok
  obtain l d' where u: "upsert_lead (JStr ''+15550100'') [Price_range \<mapsto> JStr ''400k''] ex_db = Inr (l, d')"
    and f: "find_lead_by_phone ''+15550100'' d' = Some l"
    and g1: "\<forall>k. [Price_range \<mapsto> JStr ''400k''] k = None
                 \<or> [Price_range \<mapsto> JStr ''400k''] k = Some JNull
                 \<or> [Price_range \<mapsto> JStr ''400k''] k = Some (JStr '''') \<longrightarrow>
                        get_field k l = get_field k ex_lead"
    and g2: "\<forall>k s. [Price_range \<mapsto> JStr ''400k''] k = Some (JStr s) \<and> s \<noteq> [] \<longrightarrow>
                        get_field k l = JStr s"
    by blast
  have "price_range l = JStr ''400k''"
    using spec[OF spec[OF g2, of Price_range], of "''400k''"] by simp
  moreover have "interest l = JStr ''maybe''"
    using spec[OF g1, of Interest] pr by simp
  ultimately show ?thesis
    using h pr a b c u f by blast
qed

text \<open>
  C3 as stated fails: a non-empty incoming value need not overwrite the stored one. An
  integer outside 64 bits and a list are refused when the upsert commits, so the upsert
  raises and the row keeps \<open>350-380k\<close>; the number 350000 is stored, and returned, as the
  text \<open>350000\<close>.
\<close>

theorem upsert_lead_counterexample:
  "find_lead_by_phone ''+15550100'' ex_db = Some ex_lead
   \<and> price_range ex_lead = JStr ''350-380k''
   \<and> upsert_lead (JStr ''+15550100'') [Price_range \<mapsto> JNum (2 ^ 63)] ex_db = Inl OverflowError
   \<and> upsert_lead (JStr ''+15550100'') [Price_range \<mapsto> JArr [JStr ''400k'']] ex_db
       = Inl DBAPIError
   \<and> upsert_lead (JStr ''+15550100'') [Price_range \<mapsto> JNum 350000] ex_db
       = Inr (ex_lead\<lparr>price_range := JStr ''350000''\<rparr>,
              ex_db\<lparr>leads := [ex_lead\<lparr>price_range := JStr ''350000''\<rparr>]\<rparr>)"
  by code_simp

section \<open>The decision policy\<close>

text \<open>
  When the test \<open>bool((analysis.get(k) or "").strip())\<close> has a value: the field is a
  string, or it is missing or falsy. Any other value raises.
\<close>

lemma read_ok_cases:
  "read_ok a k =
     (case dict_get a k of
        JStr s \<Rightarrow> Inr (py_strip s \<noteq> [])
      | v \<Rightarrow> if truthy v then Inl AttributeError else Inr False)"
  by (cases "dict_get a k")
     (auto simp: read_ok_def py_or_def str_strip_def py_strip_def)

text \<open>
  C1, as amended. When the interest, lower-cased and stripped, is \<open>dnc\<close> or \<open>no\<close>, and the
  two reads of \<open>price_range\<close> and \<open>timing\<close> at the head of the function do not raise
  (each field is a string, missing or falsy), the policy returns the dnc outcome and logs
  one \<open>OUTCOME_DNC\<close> event, whatever the values of those fields, the elapsed seconds, the
  lead id and the rest of the record.
\<close>

theorem dnc_priority:
  assumes "read_interest a = Inr i" and "i = ''dnc'' \<or> i = ''no''"
      and "read_ok a ''price_range'' = Inr p" and "read_ok a ''timing'' = Inr t"
  shows "decide_and_apply st a lid d =
     Inr (Some Dnc,
          save_event ''OUTCOME_DNC''
            (JObj [(''lead_id'', JNum (int lid)),
                   (''reason'', dict_get_default a ''notes'' (JStr ''''))])
            (JStr (call_sid st)) d)"
  using assms by (auto simp add: decide_and_apply_def)

theorem dnc_priority_witness:
  "read_interest [(''interest'', JStr '' DNC ''), (''price_range'', JStr ''350-380k''),
                  (''timing'', JStr ''30 days'')] = Inr ''dnc''
   \<and> read_ok [(''interest'', JStr '' DNC ''), (''price_range'', JStr ''350-380k''),
               (''timing'', JStr ''30 days'')] ''price_range'' = Inr True
   \<and> read_ok [(''interest'', JStr '' DNC ''), (''price_range'', JStr ''350-380k''),
               (''timing'', JStr ''30 days'')] ''timing'' = Inr True
   \<and> decide_and_apply (ex_state\<lparr>elapsed_sec := 120\<rparr>)
         [(''interest'', JStr '' DNC ''), (''price_range'', JStr ''350-380k''),
          (''timing'', JStr ''30 days'')] 1 ex_db =
       Inr (Some Dnc,
            ex_db\<lparr>events :=
              [\<lparr>ev_call_sid = JStr ''CA1'', event_type = ''OUTCOME_DNC'',
                payload = JObj [(''lead_id'', JNum 1), (''reason'', JStr '''')]\<rparr>]\<rparr>)"
proof -
  let ?a = "[(''interest'', JStr '' DNC ''), (''price_range'', JStr ''350-380k''),
             (''timing'', JStr ''30 days'')]"
  have h1: "read_interest ?a = Inr ''dnc''" by code_simp
  have h2: "read_ok ?a ''price_range'' = Inr True" by code_simp
  have h3: "read_ok ?a ''timing'' = Inr True" by code_simp
  have ev: "save_event ''OUTCOME_DNC''
            (JObj [(''lead_id'', JNum (int 1)),
                   (''reason'', dict_get_default ?a ''notes'' (JStr ''''))])
            (JStr (call_sid (ex_state\<lparr>elapsed_sec := 120\<rparr>))) ex_db =
       ex_db\<lparr>events :=
              [\<lparr>ev_call_sid = JStr ''CA1'', event_type = ''OUTCOME_DNC'',
                payload = JObj [(''lead_id'', JNum 1), (''reason'', JStr '''')]\<rparr>]\<rparr>"
    by (simp add: save_event_def dict_get_default_def ex_state_def ex_db_def py_or_def)
  show ?thesis
    using dnc_priority[OF h1 _ h2 h3, of "ex_state\<lparr>elapsed_sec := 120\<rparr>" 1 ex_db] h1 h2 h3 ev
    by simp
qed

text \<open>
  C1 as stated fails: with interest \<open>dnc\<close> and a number under \<open>price_range\<close> the read of
  the price raises before any branch is tried, and no outcome is returned.
\<close>

theorem dnc_priority_counterexample:
  "read_interest [(''interest'', JStr ''dnc''), (''price_range'', JNum 350000)] = Inr ''dnc''
   \<and> decide_and_apply ex_state [(''interest'', JStr ''dnc''), (''price_range'', JNum 350000)]
         1 ex_db = Inl AttributeError"
  by code_simp

text \<open>The five ways \<open>_decide_and_apply\<close> returns, each with the store it leaves.\<close>

lemma decide_cases:
  assumes "decide_and_apply st a lid d = Inr (r, d')"
  obtains
    (dnc) "r = Some Dnc"
      "d' = save_event ''OUTCOME_DNC''
            (JObj [(''lead_id'', JNum (int lid)),
                   (''reason'', dict_get_default a ''notes'' (JStr ''''))])
            (JStr (call_sid st)) d"
  | (later) cb d1 where
      "create_callback lid
         (dict_get_default a ''callback_window'' (JStr ''next business day''))
         (dict_get_default a ''notes'' (JStr '''')) d = Inr (cb, d1)"
      "r = Some (Callback_set (cb_id cb) (window cb))"
      "d' = save_event ''OUTCOME_CALLBACK''
              (JObj [(''lead_id'', JNum (int lid)),
                     (''callback_id'', JNum (int (cb_id cb))),
                     (''window'', window cb)])
              (JStr (call_sid st)) d1"
  | (transfer) "r = Some Transfer"
      "d' = save_event ''OUTCOME_TRANSFER'' (JObj [(''lead_id'', JNum (int lid))])
              (JStr (call_sid st)) (mark_qualified lid True d)"
  | (timebox) "r = Some Dnc_timebox"
      "d' = save_event ''OUTCOME_DNC''
              (JObj [(''lead_id'', JNum (int lid)),
                     (''reason'', JStr ''no_clear_interest_within_timebox'')])
              (JStr (call_sid st)) d"
  | (continue) "r = None" "d' = d"
proof -
  obtain i p t where rd: "read_interest a = Inr i" "read_ok a ''price_range'' = Inr p"
      "read_ok a ''timing'' = Inr t"
    using assms unfolding decide_and_apply_def bind_err_def
    by (auto split: sum.splits)
  show thesis
    using assms rd that
    unfolding decide_and_apply_def
    by (auto split: if_splits simp: bind_err_eq_Inr)
qed

text \<open>
  C4, as amended. When the interest, lower-cased and stripped, is \<open>yes\<close> or \<open>maybe\<close>, the
  reads of \<open>price_range\<close> and \<open>timing\<close> do not raise, and the price is non-blank or the
  timing is non-blank (after stripping white space) or 90 seconds have elapsed, the policy
  returns the transfer outcome; the row of the lead with that id has its qualified flag
  set in the store, and one \<open>OUTCOME_TRANSFER\<close> event is logged.
\<close>

theorem transfer_marks_qualified:
  assumes "read_interest a = Inr i" and "i = ''yes'' \<or> i = ''maybe''"
      and "read_ok a ''price_range'' = Inr p" and "read_ok a ''timing'' = Inr t"
      and "p \<or> t \<or> 90 \<le> elapsed_sec st"
      and "find (\<lambda>l. lead_id l = lid) (leads d) = Some l"
  shows "\<exists>d'. decide_and_apply st a lid d = Inr (Some Transfer, d')
           \<and> find (\<lambda>x. lead_id x = lid) (leads d') = Some (l\<lparr>lead_qualified := True\<rparr>)
           \<and> callbacks d' = callbacks d
           \<and> events d' = events d @
                [\<lparr>ev_call_sid = JStr (call_sid st), event_type = ''OUTCOME_TRANSFER'',
                  payload = JObj [(''lead_id'', JNum (int lid))]\<rparr>]"
proof -
  have i: "i \<noteq> ''dnc''" "i \<noteq> ''no''" "i \<noteq> ''later''"
    using assms(2) by auto
  have dec: "decide_and_apply st a lid d =
      Inr (Some Transfer,
           save_event ''OUTCOME_TRANSFER'' (JObj [(''lead_id'', JNum (int lid))])
             (JStr (call_sid st)) (mark_qualified lid True d))"
    using assms(1-5) i by (auto simp add: decide_and_apply_def)
  have lid: "lead_id l = lid"
    using assms(6) by (auto simp: find_Some_iff)
  have mq: "mark_qualified lid True d = put_lead (l\<lparr>lead_qualified := True\<rparr>) d"
    using assms(6) by (simp add: mark_qualified_def)
  have "find (\<lambda>x. lead_id x = lid) (leads (mark_qualified lid True d)) =
          Some (l\<lparr>lead_qualified := True\<rparr>)"
    using find_put_id[OF assms(6), of "l\<lparr>lead_qualified := True\<rparr>"] lid
    by (simp add: mq put_lead_def)
  then show ?thesis
    by (simp add: dec py_or_def)
qed

theorem transfer_marks_qualified_witness:
  "read_interest [(''interest'', JStr ''Maybe''), (''price_range'', JStr ''370k'')] = Inr ''maybe''
   \<and> find (\<lambda>l. lead_id l = 1) (leads ex_db) = Some ex_lead
   \<and> lead_qualified ex_lead = False
   \<and> (\<exists>d'. decide_and_apply ex_state
              [(''interest'', JStr ''Maybe''), (''price_range'', JStr ''370k'')] 1 ex_db
            = Inr (Some Transfer, d')
         \<and> find (\<lambda>x. lead_id x = 1) (leads d') = Some (ex_lead\<lparr>lead_qualified := True\<rparr>)
         \<and> callbacks d' = callbacks ex_db
         \<and> events d' = events ex_db @
              [\<lparr>ev_call_sid = JStr (call_sid ex_state), event_type = ''OUTCOME_TRANSFER'',
                payload = JObj [(''lead_id'', JNum (int 1))]\<rparr>])"
proof -
  let ?a = "[(''interest'', JStr ''Maybe''), (''price_range'', JStr ''370k'')]"
  have h1: "read_interest ?a = Inr ''maybe''" by code_simp
  have h2: "read_ok ?a ''price_range'' = Inr True" by code_simp
  have h3: "read_ok ?a ''timing'' = Inr False" by code_simp
  have h4: "find (\<lambda>l. lead_id l = 1) (leads ex_db) = Some ex_lead"
    by (simp add: ex_db_def ex_lead_def)
  have h5: "lead_qualified ex_lead = False" by (simp add: ex_lead_def)
  show ?thesis
    using transfer_marks_qualified[OF h1 _ h2 h3 _ h4, of ex_state] h1 h4 h5
    by simp
qed

text \<open>
  C4 as stated fails: a \<open>price_range\<close> of one blank is not empty, yet with interest
  \<open>yes\<close>, no timing and no time elapsed the policy returns nothing (continue) and leaves
  the store, and with it the qualified flag, as it was.
\<close>

theorem transfer_blank_price_counterexample:
  "dict_get [(''interest'', JStr ''yes''), (''price_range'', JStr '' '')] ''price_range'' \<noteq> JStr ''''
   \<and> decide_and_apply ex_state [(''interest'', JStr ''yes''), (''price_range'', JStr '' '')]
         1 ex_db = Inr (None, ex_db)
   \<and> lead_qualified ex_lead = False"
  by code_simp

section \<open>Turns of a call\<close>

lemma outcome_events_save:
  "outcome_events (save_event ty p sid d) =
     outcome_events d @
       (if ty = ''OUTCOME_DNC'' \<or> ty = ''OUTCOME_CALLBACK'' \<or> ty = ''OUTCOME_TRANSFER''
        then [\<lparr>ev_call_sid = py_or sid (JStr ''''), event_type = ty, payload = p\<rparr>] else [])"
  by (simp add: outcome_events_def is_outcome_event_def)

lemma outcome_events_cong:
  "events d' = events d \<Longrightarrow> outcome_events d' = outcome_events d"
  by (simp add: outcome_events_def)

lemma decide_outcome_events:
  assumes "decide_and_apply st a lid d = Inr (r, d')"
  shows "(r = None \<longrightarrow> d' = d) \<and>
         (r \<noteq> None \<longrightarrow> (\<exists>e. outcome_events d' = outcome_events d @ [e])) \<and>
         (r = Some Dnc_timebox \<longrightarrow>
            outcome_events d' = outcome_events d @ [timebox_event (call_sid st) lid])"
  using assms
proof (cases rule: decide_cases)
  case (later cb d1)
  have "events d1 = events d"
    using later(1) by (rule create_callback_Inr(1))
  then have "outcome_events d1 = outcome_events d"
    by (rule outcome_events_cong)
  then show ?thesis
    using later(2,3) by (simp add: outcome_events_save)
next
  case transfer
  have "outcome_events (mark_qualified lid True d) = outcome_events d"
    by (rule outcome_events_cong) simp
  then show ?thesis
    using transfer by (simp add: outcome_events_save)
qed (simp_all add: outcome_events_save timebox_event_def)

text \<open>One turn on an open call, from the snapshot of the lead on.\<close>

lemma ingest_decide_step:
  assumes "\<not> closed st3" "ingest_decide st3 a d3 = (res, st', d')"
  shows "call_sid st' = call_sid st3 \<and>
         (closed st' \<longleftrightarrow> returned_outcome res \<noteq> None) \<and>
         (returned_outcome res = None \<longrightarrow> outcome_events d' = outcome_events d3) \<and>
         (returned_outcome res \<noteq> None \<longrightarrow> (\<exists>e. outcome_events d' = outcome_events d3 @ [e])) \<and>
         (returned_outcome res = Some Dnc_timebox \<longrightarrow>
            (\<exists>lid. outcome_events d' = outcome_events d3 @ [timebox_event (call_sid st3) lid]))"
proof -
  define li where "li = lead_snapshot st3 d3"
  have unf: "ingest_decide st3 a d3 =
      (case decide_if_lead st3 a li d3 of
           Inl e \<Rightarrow> (Inl e, st3, d3)
         | Inr (None, db4) \<Rightarrow>
             (Inr (Turn_result li a None (elapsed_sec st3)), st3, db4)
         | Inr (Some oc, db4) \<Rightarrow>
             (let st4 = st3\<lparr>outcome := Some (outcome_type oc), closed := True\<rparr>
              in (Inr (Turn_result (lead_snapshot st4 db4) a (Some oc) (elapsed_sec st4)),
                  st4, db4)))"
    unfolding ingest_decide_def Let_def li_def by (rule refl)
  show ?thesis
  proof (cases "decide_if_lead st3 a li d3")
    case (Inl e)
    then show ?thesis using assms by (auto simp add: unf)
  next
    case (Inr rd)
    obtain ro d4 where rd: "rd = (ro, d4)" by (cases rd)
    have dec: "(ro = None \<longrightarrow> d4 = d3) \<and>
         (ro \<noteq> None \<longrightarrow> (\<exists>e. outcome_events d4 = outcome_events d3 @ [e])) \<and>
         (ro = Some Dnc_timebox \<longrightarrow>
            (\<exists>lid. outcome_events d4 = outcome_events d3 @ [timebox_event (call_sid st3) lid]))"
      using Inr rd decide_outcome_events[of st3 a _ d3 ro d4]
      by (auto simp: decide_if_lead_def split: option.splits if_splits)
    show ?thesis
    proof (cases ro)
      case None
      then show ?thesis using assms Inr rd dec by (auto simp add: unf)
    next
      case (Some oc)
      then show ?thesis using assms Inr rd dec by (auto simp add: unf Let_def)
    qed
  qed
qed

text \<open>One turn on an open call, from the reply of the backend on.\<close>

lemma ingest_reply_step:
  assumes "\<not> closed st" "ingest_reply r st d = (res, st', d')"
  shows "call_sid st' = call_sid st \<and>
         (closed st' \<longleftrightarrow> returned_outcome res \<noteq> None) \<and>
         (returned_outcome res = None \<longrightarrow> outcome_events d' = outcome_events d) \<and>
         (returned_outcome res \<noteq> None \<longrightarrow> (\<exists>e. outcome_events d' = outcome_events d @ [e])) \<and>
         (returned_outcome res = Some Dnc_timebox \<longrightarrow>
            (\<exists>lid. outcome_events d' = outcome_events d @ [timebox_event (call_sid st) lid]))"
proof -
  define st3 where "st3 = st\<lparr>last_response_id := response_id r\<rparr>"
  define d2 where "d2 = save_event ''RAW_LLM''
                  (JObj [(''text'', JStr (output_text r)),
                         (''response_id'', json_of_id (response_id r))])
                  (JStr (call_sid st3)) d"
  define a where "a = extract_analysis (loaded r)"
  have oe2: "outcome_events d2 = outcome_events d"
    by (simp add: d2_def outcome_events_save)
  have st3: "call_sid st3 = call_sid st" "\<not> closed st3"
    using assms(1) by (simp_all add: st3_def)
  have unf: "ingest_reply r st d =
      (case update_lead st3 a d2 of
           Inl e \<Rightarrow> (Inl e, st3, d2)
         | Inr db3 \<Rightarrow> ingest_decide st3 a db3)"
    unfolding ingest_reply_def Let_def st3_def d2_def a_def by (rule refl)
  show ?thesis
  proof (cases "update_lead st3 a d2")
    case (Inl e)
    then show ?thesis using assms(2) st3 oe2 by (auto simp add: unf)
  next
    case (Inr d3)
    have "events d3 = events d2"
      using Inr by (rule update_lead_frame(1))
    then have oe3: "outcome_events d3 = outcome_events d"
      using oe2 by (simp add: outcome_events_def)
    have "ingest_decide st3 a d3 = (res, st', d')"
      using assms(2) Inr by (simp add: unf)
    from ingest_decide_step[OF st3(2) this] show ?thesis
      by (simp add: st3 oe3)
  qed
qed

text \<open>One turn on an open call.\<close>

lemma ingest_open_step:
  assumes "\<not> closed st" "ingest_user_text llm utt secs st d = (res, st', d')"
  shows "call_sid st' = call_sid st \<and>
         (closed st' \<longleftrightarrow> returned_outcome res \<noteq> None) \<and>
         (returned_outcome res = None \<longrightarrow> outcome_events d' = outcome_events d) \<and>
         (returned_outcome res \<noteq> None \<longrightarrow> (\<exists>e. outcome_events d' = outcome_events d @ [e])) \<and>
         (returned_outcome res = Some Dnc_timebox \<longrightarrow>
            (\<exists>lid. outcome_events d' = outcome_events d @ [timebox_event (call_sid st) lid]))"
proof -
  define st2 where "st2 = (st\<lparr>history := history st @ [(''user'', utt)]\<rparr>)
        \<lparr>elapsed_sec := elapsed_sec (st\<lparr>history := history st @ [(''user'', utt)]\<rparr>) + secs\<rparr>"
  define d1 where "d1 = save_event ''TURN''
        (JObj [(''from'', JStr ''user''), (''text'', JStr utt),
               (''elapsed'', JNum (elapsed_sec st))])
        (JStr (call_sid st)) d"
  have st2: "\<not> closed st2" "call_sid st2 = call_sid st"
    using assms(1) by (simp_all add: st2_def)
  have oe1: "outcome_events d1 = outcome_events d"
    by (simp add: d1_def outcome_events_save)
  have unf: "ingest_user_text llm utt secs st d =
      (case llm (drop (length (history st2) - 6) (history st2)) (last_response_id st2) of
             Inl e \<Rightarrow> (Inl e, st2, d1)
           | Inr r \<Rightarrow> ingest_reply r st2 d1)"
    unfolding ingest_user_text_def append_user_def Let_def split_conv st2_def d1_def
    using assms(1) by (simp only: if_False)
  show ?thesis
  proof (cases "llm (drop (length (history st2) - 6) (history st2)) (last_response_id st2)")
    case (Inl e)
    then show ?thesis using assms(2) st2 oe1 by (auto simp add: unf)
  next
    case (Inr r)
    then have "ingest_reply r st2 d1 = (res, st', d')"
      using assms(2) by (simp add: unf)
    from ingest_reply_step[OF st2(1) this] show ?thesis
      by (simp add: st2 oe1)
  qed
qed

lemma ingest_closed_step:
  "closed st \<Longrightarrow>
   ingest_user_text llm utt secs st d = (Inr (Closed_status (outcome st)), st, d)"
  by (simp add: ingest_user_text_def)

lemma ingest_all_closed:
  "closed st \<Longrightarrow>
   ingest_all ins st d = (map (\<lambda>_. Inr (Closed_status (outcome st))) ins, st, d)"
  by (induction ins) (auto simp: ingest_closed_step)

lemma ingest_all_timebox_once:
  assumes "\<not> closed st" "ingest_all ins st d = (rs, st', d')"
      and "Some Dnc_timebox \<in> returned_outcome ` set rs"
  shows "\<exists>lid. outcome_events d' = outcome_events d @ [timebox_event (call_sid st) lid]"
  using assms
proof (induction ins arbitrary: st d rs)
  case Nil
  then show ?case by simp
next
  case (Cons x ins)
  obtain llm utt secs where x: "x = (llm, utt, secs)" by (cases x)
  obtain r st1 d1 where step: "ingest_user_text llm utt secs st d = (r, st1, d1)"
    by (cases "ingest_user_text llm utt secs st d")
  obtain rs1 where rest: "ingest_all ins st1 d1 = (rs1, st', d')" and rs: "rs = r # rs1"
    using Cons.prems(2) x step by (auto split: prod.splits)
  note S = ingest_open_step[OF Cons.prems(1) step]
  show ?case
  proof (cases "closed st1")
    case True
    from ingest_all_closed[OF True, of ins d1] rest
    have eq: "rs1 = map (\<lambda>_. Inr (Closed_status (outcome st1))) ins" "d' = d1" by simp_all
    have "returned_outcome r = Some Dnc_timebox"
      using Cons.prems(3) rs eq(1) by auto
    then show ?thesis using S eq(2) by simp
  next
    case False
    then have "returned_outcome r = None" using S by simp
    then have "Some Dnc_timebox \<in> returned_outcome ` set rs1"
      using Cons.prems(3) rs by auto
    from Cons.IH[OF False rest this] S \<open>returned_outcome r = None\<close>
    show ?thesis by simp
  qed
qed

text \<open>
  C2. On a closed call every further invocation of \<open>ingest_user_text\<close>, and so every
  sequence of further invocations, returns the stored outcome tag and leaves the
  conversation state and the store (leads, callbacks, events) exactly as they were.
\<close>

theorem ingest_after_close:
  assumes "closed st"
  shows "ingest_user_text llm utt secs st d = (Inr (Closed_status (outcome st)), st, d)
     \<and> ingest_all ins st d = (map (\<lambda>_. Inr (Closed_status (outcome st))) ins, st, d)"
  using assms by (simp add: ingest_closed_step ingest_all_closed)

theorem ingest_after_close_witness:
  "closed (fst (snd (ingest_user_text ex_llm_dnc ''please remove me'' 8 ex_state ex_db)))
   \<and> outcome (fst (snd (ingest_user_text ex_llm_dnc ''please remove me'' 8 ex_state ex_db)))
       = Some ''dnc''
   \<and> ingest_user_text ex_llm_prose ''hello?'' 8
       (fst (snd (ingest_user_text ex_llm_dnc ''please remove me'' 8 ex_state ex_db)))
       (snd (snd (ingest_user_text ex_llm_dnc ''please remove me'' 8 ex_state ex_db)))
     = (Inr (Closed_status (Some ''dnc'')),
        fst (snd (ingest_user_text ex_llm_dnc ''please remove me'' 8 ex_state ex_db)),
        snd (snd (ingest_user_text ex_llm_dnc ''please remove me'' 8 ex_state ex_db)))"
proof -
  have h: "closed (fst (snd (ingest_user_text ex_llm_dnc ''please remove me'' 8 ex_state ex_db)))"
    by code_simp
  have o: "outcome (fst (snd (ingest_user_text ex_llm_dnc ''please remove me'' 8 ex_state ex_db)))
       = Some ''dnc''"
    by code_simp
  show ?thesis
    using ingest_after_close[OF h, of ex_llm_prose "''hello?''" 8 _ "[]"] h o by simp
qed

text \<open>
  C5, as amended. A record that matches none of the dnc, callback and transfer branches
  and whose \<open>interest\<close>, \<open>price_range\<close> and \<open>timing\<close> are each a string, missing or falsy,
  that is, for which the three reads at the head of the function give an interest and the
  two flags and none of the three branch conditions holds: the policy returns nothing
  (continue) and leaves the store alone while fewer than 90 seconds have elapsed, and
  from 90 seconds on returns the timeout variant of dnc and logs one \<open>OUTCOME_DNC\<close> event
  with the reason \<open>no_clear_interest_within_timebox\<close>. Over a whole call, whatever its
  turns, a call that returned the timeout exit has logged that event and no other outcome
  event.
\<close>

theorem timebox_exit:
  assumes "read_interest a = Inr i"
      and "read_ok a ''price_range'' = Inr p" and "read_ok a ''timing'' = Inr t"
      and "i \<noteq> ''dnc''" and "i \<noteq> ''no''" and "i \<noteq> ''later''"
      and "\<not> ((i = ''yes'' \<or> i = ''maybe'') \<and> (p \<or> t \<or> 90 \<le> elapsed_sec st))"
  shows "(elapsed_sec st < 90 \<longrightarrow> decide_and_apply st a lid d = Inr (None, d))
     \<and> (90 \<le> elapsed_sec st \<longrightarrow>
          decide_and_apply st a lid d =
            Inr (Some Dnc_timebox,
                 save_event ''OUTCOME_DNC''
                   (JObj [(''lead_id'', JNum (int lid)),
                          (''reason'', JStr ''no_clear_interest_within_timebox'')])
                   (JStr (call_sid st)) d)
          \<and> outcome_events
                (save_event ''OUTCOME_DNC''
                   (JObj [(''lead_id'', JNum (int lid)),
                          (''reason'', JStr ''no_clear_interest_within_timebox'')])
                   (JStr (call_sid st)) d)
              = outcome_events d @ [timebox_event (call_sid st) lid])
     \<and> (\<forall>ins st0 d0 rs st1 d1.
           \<not> closed st0 \<and> ingest_all ins st0 d0 = (rs, st1, d1)
           \<and> Some Dnc_timebox \<in> returned_outcome ` set rs
           \<longrightarrow> (\<exists>lid'. outcome_events d1 = outcome_events d0 @ [timebox_event (call_sid st0) lid']))"
proof -
  have a: "elapsed_sec st < 90 \<longrightarrow> decide_and_apply st a lid d = Inr (None, d)"
    using assms by (auto simp add: decide_and_apply_def)
  have b: "90 \<le> elapsed_sec st \<longrightarrow>
          decide_and_apply st a lid d =
            Inr (Some Dnc_timebox,
                 save_event ''OUTCOME_DNC''
                   (JObj [(''lead_id'', JNum (int lid)),
                          (''reason'', JStr ''no_clear_interest_within_timebox'')])
                   (JStr (call_sid st)) d)"
    using assms by (auto simp add: decide_and_apply_def)
  have c: "outcome_events
                (save_event ''OUTCOME_DNC''
                   (JObj [(''lead_id'', JNum (int lid)),
                          (''reason'', JStr ''no_clear_interest_within_timebox'')])
                   (JStr (call_sid st)) d)
              = outcome_events d @ [timebox_event (call_sid st) lid]"
    by (simp add: outcome_events_save timebox_event_def)
  have e: "\<forall>ins st0 d0 rs st1 d1.
           \<not> closed st0 \<and> ingest_all ins st0 d0 = (rs, st1, d1)
           \<and> Some Dnc_timebox \<in> returned_outcome ` set rs
           \<longrightarrow> (\<exists>lid'. outcome_events d1 = outcome_events d0 @ [timebox_event (call_sid st0) lid'])"
    using ingest_all_timebox_once by blast
  show ?thesis
    using a b c e by blast
qed

theorem timebox_exit_witness:
  "read_interest unknown_record = Inr ''unknown''
   \<and> read_ok unknown_record ''price_range'' = Inr False
   \<and> read_ok unknown_record ''timing'' = Inr False
   \<and> decide_and_apply ex_state unknown_record 1 ex_db = Inr (None, ex_db)
   \<and> decide_and_apply (ex_state\<lparr>elapsed_sec := 96\<rparr>) unknown_record 1 ex_db =
       Inr (Some Dnc_timebox, ex_db\<lparr>events := [timebox_event ''CA1'' 1]\<rparr>)
   \<and> map returned_outcome (fst (ingest_all ex_turns ex_state ex_db))
       = [None, Some Dnc_timebox, None]
   \<and> outcome_events (snd (snd (ingest_all ex_turns ex_state ex_db)))
       = [timebox_event ''CA1'' 1]"
proof -
  have h1: "read_interest unknown_record = Inr ''unknown''" by code_simp
  have h2: "read_ok unknown_record ''price_range'' = Inr False" by code_simp
  have h3: "read_ok unknown_record ''timing'' = Inr False" by code_simp
  have n: "''unknown'' \<noteq> ''dnc''" "''unknown'' \<noteq> ''no''" "''unknown'' \<noteq> ''later''"
    "\<not> ((''unknown'' = ''yes'' \<or> ''unknown'' = ''maybe'') \<and> (False \<or> False \<or> 90 \<le> elapsed_sec s))"
    for s :: conversation_state by simp_all
  note T = timebox_exit[OF h1 h2 h3 n]
  have e0: "elapsed_sec ex_state < 90" by (simp add: ex_state_def)
  have e1: "90 \<le> elapsed_sec (ex_state\<lparr>elapsed_sec := 96\<rparr>)" by simp
  have ev: "save_event ''OUTCOME_DNC''
                   (JObj [(''lead_id'', JNum (int 1)),
                          (''reason'', JStr ''no_clear_interest_within_timebox'')])
                   (JStr (call_sid (ex_state\<lparr>elapsed_sec := 96\<rparr>))) ex_db
            = ex_db\<lparr>events := [timebox_event ''CA1'' 1]\<rparr>"
    by (simp add: save_event_def timebox_event_def ex_db_def ex_state_def)
  have run: "map returned_outcome (fst (ingest_all ex_turns ex_state ex_db))
       = [None, Some Dnc_timebox, None]"
    by code_simp
  have fin: "outcome_events (snd (snd (ingest_all ex_turns ex_state ex_db)))
       = [timebox_event ''CA1'' 1]"
    by code_simp
  show ?thesis
    using T[of ex_state 1 ex_db] T[of "ex_state\<lparr>elapsed_sec := 96\<rparr>" 1 ex_db]
      h1 h2 h3 e0 e1 ev run fin
    by simp
qed

text \<open>
  The restriction to such records is needed: with a numeric \<open>price_range\<close> the interest
  \<open>unknown\<close> matches no branch, and the policy raises, below the timebox and above it, and
  logs nothing.
\<close>

theorem timebox_exit_counterexample:
  "read_interest [(''interest'', JStr ''unknown''), (''price_range'', JNum 350000)]
     = Inr ''unknown''
   \<and> decide_and_apply ex_state
        [(''interest'', JStr ''unknown''), (''price_range'', JNum 350000)] 1 ex_db
       = Inl AttributeError
   \<and> decide_and_apply (ex_state\<lparr>elapsed_sec := 96\<rparr>)
        [(''interest'', JStr ''unknown''), (''price_range'', JNum 350000)] 1 ex_db
       = Inl AttributeError"
  by code_simp

text \<open>When \<open>create_callback\<close> returns: exactly when the window and the notes can be stored.\<close>

lemma create_callback_returns:
  "(\<exists>cb d'. create_callback i w n d = Inr (cb, d')) \<longleftrightarrow>
   (\<exists>wt nt. sql_text (py_or w (JStr ''next business day'')) = Inr wt
           \<and> sql_text_default n = Inr nt)"
  by (auto simp: create_callback_def bind_err_eq_Inr Let_def)

lemma mark_qualified_find:
  assumes "find (\<lambda>x. lead_id x = lid) (leads d) = Some l"
  shows "find (\<lambda>x. lead_id x = lid) (leads (mark_qualified lid q d)) =
           Some (l\<lparr>lead_qualified := q\<rparr>)"
proof -
  have lid: "lead_id l = lid"
    using assms by (auto simp: find_Some_iff)
  have mq: "mark_qualified lid q d = put_lead (l\<lparr>lead_qualified := q\<rparr>) d"
    using assms by (simp add: mark_qualified_def)
  show ?thesis
    using find_put_id[OF assms, of "l\<lparr>lead_qualified := q\<rparr>"] lid
    by (simp add: mq put_lead_def)
qed

text \<open>The kind of outcome as a function of the three values read and the elapsed seconds.\<close>

lemma decide_kind:
  assumes "read_interest a = Inr i" "read_ok a ''price_range'' = Inr p"
      "read_ok a ''timing'' = Inr t"
      "create_callback lid
         (dict_get_default a ''callback_window'' (JStr ''next business day''))
         (dict_get_default a ''notes'' (JStr '''')) d = Inr (cb, d1)"
  shows "\<exists>r d'. decide_and_apply st a lid d = Inr (r, d')
     \<and> map_option outcome_type r =
         (if i = ''dnc'' \<or> i = ''no'' then Some ''dnc''
          else if i = ''later'' then Some ''callback''
          else if (i = ''yes'' \<or> i = ''maybe'') \<and> (p \<or> t \<or> 90 \<le> elapsed_sec st)
            then Some ''transfer''
          else if 90 \<le> elapsed_sec st then Some ''dnc''
          else None)"
  using assms by (simp add: decide_and_apply_def)

lemma decide_kind_not_later:
  assumes "read_interest a = Inr i" "read_ok a ''price_range'' = Inr p"
      "read_ok a ''timing'' = Inr t" "i \<noteq> ''later''"
  shows "\<exists>r d'. decide_and_apply st a lid d = Inr (r, d')
     \<and> map_option outcome_type r =
         (if i = ''dnc'' \<or> i = ''no'' then Some ''dnc''
          else if (i = ''yes'' \<or> i = ''maybe'') \<and> (p \<or> t \<or> 90 \<le> elapsed_sec st)
            then Some ''transfer''
          else if 90 \<le> elapsed_sec st then Some ''dnc''
          else None)"
  using assms by (simp add: decide_and_apply_def)

text \<open>
  C7, as amended. The policy decides and applies in one function. Whenever it returns:
  a continue leaves the store as it was; every other outcome appends exactly one event,
  of the type of the outcome, to the audit log; the callback outcome adds one Callback
  row for the lead id, with a fresh id and the window the outcome carries, and leaves
  the leads alone; the transfer outcome sets the qualified flag of the lead with the
  given id and leaves the callbacks alone; the two dnc outcomes leave leads and callbacks
  alone. Conversely a changed Callback table means the callback outcome, and changed
  leads mean the transfer outcome. The policy takes the record, the lead id and the state
  (for the elapsed seconds and the call sid), and does not read the lead's stored
  qualified flag: the kind of outcome is the same on every store and for every lead id.
\<close>

theorem decide_and_apply_effects:
  assumes "decide_and_apply st a lid d = Inr (r, d')"
  shows "(r = None \<longrightarrow> d' = d)
     \<and> (\<forall>oc. r = Some oc \<longrightarrow>
          (\<exists>e. events d' = events d @ [e] \<and> is_outcome_event e
              \<and> ev_call_sid e = JStr (call_sid st)
              \<and> event_type e =
                  (case oc of
                     Dnc \<Rightarrow> ''OUTCOME_DNC''
                   | Callback_set i w \<Rightarrow> ''OUTCOME_CALLBACK''
                   | Transfer \<Rightarrow> ''OUTCOME_TRANSFER''
                   | Dnc_timebox \<Rightarrow> ''OUTCOME_DNC'')))
     \<and> (\<forall>i w. r = Some (Callback_set i w) \<longrightarrow>
          leads d' = leads d
          \<and> (\<exists>cb. callbacks d' = callbacks d @ [cb] \<and> cb_id cb = i \<and> window cb = w
                 \<and> cb_lead_id cb = lid \<and> i = next_id (map cb_id (callbacks d))))
     \<and> (r = Some Transfer \<longrightarrow>
          callbacks d' = callbacks d
          \<and> (\<forall>l. find (\<lambda>x. lead_id x = lid) (leads d) = Some l \<longrightarrow>
                 find (\<lambda>x. lead_id x = lid) (leads d') = Some (l\<lparr>lead_qualified := True\<rparr>)))
     \<and> (r = Some Dnc \<or> r = Some Dnc_timebox \<longrightarrow>
          leads d' = leads d \<and> callbacks d' = callbacks d)
     \<and> (callbacks d' \<noteq> callbacks d \<longrightarrow> (\<exists>i w. r = Some (Callback_set i w)))
     \<and> (leads d' \<noteq> leads d \<longrightarrow> r = Some Transfer)
     \<and> (\<forall>lid2 d2. \<exists>r2 d2'. decide_and_apply st a lid2 d2 = Inr (r2, d2')
            \<and> map_option outcome_type r2 = map_option outcome_type r)"
proof -
  obtain i p t where rd: "read_interest a = Inr i" "read_ok a ''price_range'' = Inr p"
      "read_ok a ''timing'' = Inr t"
    using assms unfolding decide_and_apply_def
    by (auto simp: bind_err_eq_Inr)
  have same: "\<forall>lid2 d2. \<exists>r2 d2'. decide_and_apply st a lid2 d2 = Inr (r2, d2')
            \<and> map_option outcome_type r2 = map_option outcome_type r"
  proof (intro allI)
    fix lid2 d2
    show "\<exists>r2 d2'. decide_and_apply st a lid2 d2 = Inr (r2, d2')
            \<and> map_option outcome_type r2 = map_option outcome_type r"
    proof (cases "i = ''later''")
      case True
      have "\<exists>cb d1. create_callback lid
         (dict_get_default a ''callback_window'' (JStr ''next business day''))
         (dict_get_default a ''notes'' (JStr '''')) d = Inr (cb, d1)"
        using assms rd True
        by (cases "create_callback lid
              (dict_get_default a ''callback_window'' (JStr ''next business day''))
              (dict_get_default a ''notes'' (JStr '''')) d")
           (auto simp: decide_and_apply_def)
      then have "\<exists>cb d1. create_callback lid2
         (dict_get_default a ''callback_window'' (JStr ''next business day''))
         (dict_get_default a ''notes'' (JStr '''')) d2 = Inr (cb, d1)"
        unfolding create_callback_returns .
      then obtain cb2 d12 where c2: "create_callback lid2
         (dict_get_default a ''callback_window'' (JStr ''next business day''))
         (dict_get_default a ''notes'' (JStr '''')) d2 = Inr (cb2, d12)"
        by blast
      have "map_option outcome_type r = Some ''callback''"
        using assms rd True by (auto simp: decide_and_apply_def bind_err_eq_Inr)
      then show ?thesis
        using decide_kind[OF rd c2, of st] True by auto
    next
      case False
      from decide_kind_not_later[OF rd False, of st lid d] assms
      have k: "map_option outcome_type r =
         (if i = ''dnc'' \<or> i = ''no'' then Some ''dnc''
          else if (i = ''yes'' \<or> i = ''maybe'') \<and> (p \<or> t \<or> 90 \<le> elapsed_sec st)
            then Some ''transfer''
          else if 90 \<le> elapsed_sec st then Some ''dnc''
          else None)"
        by auto
      from decide_kind_not_later[OF rd False, of st lid2 d2] k
      show ?thesis by auto
    qed
  qed
  from assms have "(r = None \<longrightarrow> d' = d)
     \<and> (\<forall>oc. r = Some oc \<longrightarrow>
          (\<exists>e. events d' = events d @ [e] \<and> is_outcome_event e
              \<and> ev_call_sid e = JStr (call_sid st)
              \<and> event_type e =
                  (case oc of
                     Dnc \<Rightarrow> ''OUTCOME_DNC''
                   | Callback_set i w \<Rightarrow> ''OUTCOME_CALLBACK''
                   | Transfer \<Rightarrow> ''OUTCOME_TRANSFER''
                   | Dnc_timebox \<Rightarrow> ''OUTCOME_DNC'')))
     \<and> (\<forall>i w. r = Some (Callback_set i w) \<longrightarrow>
          leads d' = leads d
          \<and> (\<exists>cb. callbacks d' = callbacks d @ [cb] \<and> cb_id cb = i \<and> window cb = w
                 \<and> cb_lead_id cb = lid \<and> i = next_id (map cb_id (callbacks d))))
     \<and> (r = Some Transfer \<longrightarrow>
          callbacks d' = callbacks d
          \<and> (\<forall>l. find (\<lambda>x. lead_id x = lid) (leads d) = Some l \<longrightarrow>
                 find (\<lambda>x. lead_id x = lid) (leads d') = Some (l\<lparr>lead_qualified := True\<rparr>)))
     \<and> (r = Some Dnc \<or> r = Some Dnc_timebox \<longrightarrow>
          leads d' = leads d \<and> callbacks d' = callbacks d)
     \<and> (callbacks d' \<noteq> callbacks d \<longrightarrow> (\<exists>i w. r = Some (Callback_set i w)))
     \<and> (leads d' \<noteq> leads d \<longrightarrow> r = Some Transfer)"
  proof (cases rule: decide_cases)
    case (later cb d1)
    note C = create_callback_Inr[OF later(1)]
    show ?thesis
      using later(2,3) C(1-5) by (simp add: is_outcome_event_def py_or_def)
  next
    case transfer
    show ?thesis
      using transfer by (simp add: is_outcome_event_def py_or_def mark_qualified_find)
  qed (simp_all add: is_outcome_event_def py_or_def)
  then show ?thesis using same by blast
qed

theorem decide_and_apply_effects_witness:
  "decide_and_apply ex_state [(''interest'', JStr ''later'')] 1 ex_db =
     Inr (Some (Callback_set 1 (JStr ''next business day'')),
          ex_db\<lparr>callbacks := [\<lparr>cb_id = 1, cb_lead_id = 1, window = JStr ''next business day'',
                                 cb_notes = JStr ''''\<rparr>],
                events := [\<lparr>ev_call_sid = JStr ''CA1'', event_type = ''OUTCOME_CALLBACK'',
                             payload = JObj [(''lead_id'', JNum 1), (''callback_id'', JNum 1),
                                             (''window'', JStr ''next business day'')]\<rparr>]\<rparr>)
   \<and> decide_and_apply ex_state [(''interest'', JStr ''yes''), (''price_range'', JStr ''370k'')]
       1 ex_db =
     Inr (Some Transfer,
          ex_db\<lparr>leads := [ex_lead\<lparr>lead_qualified := True\<rparr>],
                events := [\<lparr>ev_call_sid = JStr ''CA1'', event_type = ''OUTCOME_TRANSFER'',
                             payload = JObj [(''lead_id'', JNum 1)]\<rparr>]\<rparr>)
   \<and> (\<exists>d'. decide_and_apply ex_state [(''interest'', JStr ''later'')] 1 ex_db =
              Inr (Some (Callback_set 1 (JStr ''next business day'')), d')
         \<and> leads d' = leads ex_db
         \<and> (\<exists>cb. callbacks d' = callbacks ex_db @ [cb] \<and> cb_id cb = 1
                \<and> window cb = JStr ''next business day'' \<and> cb_lead_id cb = 1)
         \<and> (\<exists>e. events d' = events ex_db @ [e] \<and> event_type e = ''OUTCOME_CALLBACK''))"
proof -
  have h: "decide_and_apply ex_state [(''interest'', JStr ''later'')] 1 ex_db =
     Inr (Some (Callback_set 1 (JStr ''next business day'')),
          ex_db\<lparr>callbacks := [\<lparr>cb_id = 1, cb_lead_id = 1, window = JStr ''next business day'',
                                 cb_notes = JStr ''''\<rparr>],
                events := [\<lparr>ev_call_sid = JStr ''CA1'', event_type = ''OUTCOME_CALLBACK'',
                             payload = JObj [(''lead_id'', JNum 1), (''callback_id'', JNum 1),
                                             (''window'', JStr ''next business day'')]\<rparr>]\<rparr>)"
    by code_simp
  have g: "decide_and_apply ex_state [(''interest'', JStr ''yes''), (''price_range'', JStr ''370k'')]
       1 ex_db =
     Inr (Some Transfer,
          ex_db\<lparr>leads := [ex_lead\<lparr>lead_qualified := True\<rparr>],
                events := [\<lparr>ev_call_sid = JStr ''CA1'', event_type = ''OUTCOME_TRANSFER'',
                             payload = JObj [(''lead_id'', JNum 1)]\<rparr>]\<rparr>)"
    by code_simp
  show ?thesis
    using decide_and_apply_effects[OF h] h g by simp
qed

text \<open>
  C7 as stated fails: evaluating the policy on a record with interest \<open>later\<close> writes an
  event and creates a Callback row, and on one with interest \<open>yes\<close> and a price it
  changes the lead.
\<close>

theorem decide_and_apply_pure_counterexample:
  "events (snd (projr (decide_and_apply ex_state [(''interest'', JStr ''later'')] 1 ex_db)))
     \<noteq> events ex_db
   \<and> callbacks (snd (projr (decide_and_apply ex_state [(''interest'', JStr ''later'')] 1 ex_db)))
     \<noteq> callbacks ex_db
   \<and> leads (snd (projr (decide_and_apply ex_state
        [(''interest'', JStr ''yes''), (''price_range'', JStr ''370k'')] 1 ex_db)))
     \<noteq> leads ex_db"
  by code_simp

section \<open>The extractor\<close>

lemma extract_not_object: "\<not> is_object parsed \<Longrightarrow> extract_analysis parsed = unknown_record"
  by (cases parsed rule: is_object.cases) (simp_all add: extract_analysis_def)

lemma read_unknown_record:
  "read_interest unknown_record = Inr ''unknown''"
  "read_ok unknown_record ''price_range'' = Inr False"
  "read_ok unknown_record ''timing'' = Inr False"
  by code_simp+

lemma decide_unknown_record:
  "decide_and_apply st unknown_record lid d =
     (if 90 \<le> elapsed_sec st then
        Inr (Some Dnc_timebox,
             save_event ''OUTCOME_DNC''
               (JObj [(''lead_id'', JNum (int lid)),
                      (''reason'', JStr ''no_clear_interest_within_timebox'')])
               (JStr (call_sid st)) d)
      else Inr (None, d))"
  by (simp add: decide_and_apply_def read_unknown_record)

text \<open>The fallback record holds strings only, so storing its fields is never refused.\<close>

lemma unknown_record_fields:
  "dict_get_default unknown_record ''interest'' (JStr '''') = JStr ''unknown''"
  "dict_get_default unknown_record ''price_range'' (JStr '''') = JStr ''''"
  "dict_get_default unknown_record ''timing'' (JStr '''') = JStr ''''"
  "dict_get_default unknown_record ''condition'' (JStr '''') = JStr ''''"
  "dict_get_default unknown_record ''owner_status'' (JStr '''') = JStr ''unknown''"
  by code_simp+

lemma update_lead_unknown_record: "\<exists>d3. update_lead st unknown_record d = Inr d3"
proof -
  let ?kw = "[Interest \<mapsto> JStr ''unknown'', Price_range \<mapsto> JStr '''', Timing \<mapsto> JStr '''',
              Condition \<mapsto> JStr '''', Owner_status \<mapsto> JStr ''unknown'']"
  have "\<forall>k v. ?kw k = Some v \<longrightarrow> (\<exists>s. v = JStr s)"
    by (auto split: if_splits)
  from upsert_lead_strings[OF this, of "phone st" d]
  obtain l d' where "upsert_lead (JStr (phone st)) ?kw d = Inr (l, d')"
    by blast
  then show ?thesis
    by (simp add: update_lead_def unknown_record_fields)
qed

lemma ingest_reply_malformed:
  assumes "\<not> is_object (loaded r)"
  shows "\<exists>l oc st' d'.
           ingest_reply r st d = (Inr (Turn_result l unknown_record oc (elapsed_sec st)), st', d')
           \<and> (oc = None \<or> oc = Some Dnc_timebox)"
proof -
  define st3 where "st3 = st\<lparr>last_response_id := response_id r\<rparr>"
  define d2 where "d2 = save_event ''RAW_LLM''
                  (JObj [(''text'', JStr (output_text r)),
                         (''response_id'', json_of_id (response_id r))])
                  (JStr (call_sid st3)) d"
  obtain d3 where d3: "update_lead st3 unknown_record d2 = Inr d3"
    using update_lead_unknown_record by blast
  define li where "li = lead_snapshot st3 d3"
  have a: "extract_analysis (loaded r) = unknown_record"
    using assms by (rule extract_not_object)
  have unf0: "ingest_reply r st d =
      (case update_lead st3 unknown_record d2 of
           Inl e \<Rightarrow> (Inl e, st3, d2)
         | Inr db3 \<Rightarrow> ingest_decide st3 unknown_record db3)"
    unfolding ingest_reply_def Let_def a st3_def d2_def by (rule refl)
  have unf1: "ingest_decide st3 unknown_record d3 =
      (case decide_if_lead st3 unknown_record li d3 of
           Inl e \<Rightarrow> (Inl e, st3, d3)
         | Inr (None, db4) \<Rightarrow>
             (Inr (Turn_result li unknown_record None (elapsed_sec st3)), st3, db4)
         | Inr (Some oc, db4) \<Rightarrow>
             (let st4 = st3\<lparr>outcome := Some (outcome_type oc), closed := True\<rparr>
              in (Inr (Turn_result (lead_snapshot st4 db4) unknown_record (Some oc)
                         (elapsed_sec st4)),
                  st4, db4)))"
    unfolding ingest_decide_def Let_def li_def by (rule refl)
  have unf: "ingest_reply r st d = ingest_decide st3 unknown_record d3"
    by (simp add: unf0 d3)
  have el: "elapsed_sec st3 = elapsed_sec st" by (simp add: st3_def)
  have "(\<exists>d4. decide_if_lead st3 unknown_record li d3 = Inr (None, d4))
      \<or> (\<exists>d4. decide_if_lead st3 unknown_record li d3 = Inr (Some Dnc_timebox, d4))"
    by (auto simp: decide_if_lead_def decide_unknown_record split: option.splits)
  then show ?thesis
    by (auto simp: unf unf1 Let_def el)
qed

text \<open>
  C6, as amended. The extractor never raises. For text that is not JSON, or JSON that is
  not an object, it yields one fixed record of seven fields: \<open>interest\<close> and
  \<open>owner_status\<close> are \<open>"unknown"\<close>, the other five are empty strings; the turn then
  returns that record with continue or the timeout exit, never an error. For a JSON object
  it yields the object as it is: a missing field stays missing and no value is replaced.
\<close>

theorem extract_analysis_fail_soft:
  "(\<not> is_object parsed \<longrightarrow> extract_analysis parsed = unknown_record)
   \<and> extract_analysis (Some (JObj kvs)) = kvs
   \<and> map fst unknown_record =
       [''interest'', ''price_range'', ''timing'', ''condition'', ''owner_status'',
        ''callback_window'', ''notes'']
   \<and> dict_get unknown_record ''interest'' = JStr ''unknown''
   \<and> dict_get unknown_record ''owner_status'' = JStr ''unknown''
   \<and> dict_get unknown_record ''price_range'' = JStr ''''
   \<and> dict_get unknown_record ''timing'' = JStr ''''
   \<and> dict_get unknown_record ''condition'' = JStr ''''
   \<and> dict_get unknown_record ''callback_window'' = JStr ''''
   \<and> dict_get unknown_record ''notes'' = JStr ''''
   \<and> (\<not> is_object (loaded r) \<longrightarrow>
        (\<exists>l oc st' d'.
           ingest_reply r st d = (Inr (Turn_result l unknown_record oc (elapsed_sec st)), st', d')
           \<and> (oc = None \<or> oc = Some Dnc_timebox)))"
proof -
  have u: "map fst unknown_record =
       [''interest'', ''price_range'', ''timing'', ''condition'', ''owner_status'',
        ''callback_window'', ''notes'']"
    "dict_get unknown_record ''interest'' = JStr ''unknown''"
    "dict_get unknown_record ''owner_status'' = JStr ''unknown''"
    "dict_get unknown_record ''price_range'' = JStr ''''"
    "dict_get unknown_record ''timing'' = JStr ''''"
    "dict_get unknown_record ''condition'' = JStr ''''"
    "dict_get unknown_record ''callback_window'' = JStr ''''"
    "dict_get unknown_record ''notes'' = JStr ''''"
    by (simp_all add: unknown_record_def dict_get_def)
  have o: "extract_analysis (Some (JObj kvs)) = kvs"
    by (simp add: extract_analysis_def)
  show ?thesis
    using u o extract_not_object ingest_reply_malformed by blast
qed

theorem extract_analysis_fail_soft_witness:
  "\<not> is_object (Some (JArr [JStr ''dnc'']))
   \<and> extract_analysis (Some (JArr [JStr ''dnc''])) = unknown_record
   \<and> \<not> is_object (loaded \<lparr>output_text = ''They did not say.'', response_id = None,
                            loaded = None\<rparr>)
   \<and> (\<exists>l oc st' d'.
         ingest_reply \<lparr>output_text = ''They did not say.'', response_id = None, loaded = None\<rparr>
           ex_state ex_db
         = (Inr (Turn_result l unknown_record oc (elapsed_sec ex_state)), st', d')
         \<and> (oc = None \<or> oc = Some Dnc_timebox))"
  using extract_analysis_fail_soft[of "Some (JArr [JStr ''dnc''])" "[]"
          "\<lparr>output_text = ''They did not say.'', response_id = None, loaded = None\<rparr>"
          ex_state ex_db]
  by simp

text \<open>
  C6 as stated fails. For text that is not JSON the record's \<open>owner_status\<close> is
  \<open>"unknown"\<close>, not the empty string. For the object \<open>{}\<close> the record has no field at
  all, so \<open>interest\<close> is not defaulted to \<open>"unknown"\<close>. And an object is handed on with
  whatever values it has: with a number under \<open>price_range\<close> the policy raises.
\<close>

theorem extract_analysis_counterexample:
  "dict_get (extract_analysis None) ''owner_status'' = JStr ''unknown''
   \<and> extract_analysis (Some (JObj [])) = []
   \<and> map_of (extract_analysis (Some (JObj []))) ''interest'' = None
   \<and> extract_analysis (Some (JObj [(''interest'', JStr ''yes''), (''price_range'', JNum 350000)]))
       = [(''interest'', JStr ''yes''), (''price_range'', JNum 350000)]
   \<and> decide_and_apply ex_state
        (extract_analysis (Some (JObj [(''interest'', JStr ''yes''), (''price_range'', JNum 350000)])))
        1 ex_db = Inl AttributeError"
  by code_simp

section \<open>The streaming bridge: what a frame can do\<close>












section \<open>The media stream: drains and teardown\<close>

















section \<open>A later interest without a callback window, on the two paths\<close>

lemma lead_detect_later_no_window:
  assumes "dict_get args ''interest'' = JStr ''later''"
      and "\<not> truthy (dict_get args ''callback_window'')"
  shows "lead_detect args b w =
     (case upsert_lead (bridge_phone b)
             [Interest \<mapsto> dict_get_default args ''interest'' (JStr ''''),
              Price_range \<mapsto> dict_get_default args ''price_range'' (JStr ''''),
              Timing \<mapsto> dict_get_default args ''timing'' (JStr ''''),
              Condition \<mapsto> dict_get_default args ''condition'' (JStr ''''),
              Owner_status \<mapsto> dict_get_default args ''owner_status'' (JStr '''')]
             (wdb w) of
        Inl e \<Rightarrow> (Raised e, b, w)
      | Inr (l, d) \<Rightarrow> (Next, b, w\<lparr>wdb := d\<rparr>))"
  using assms
  by (simp add: lead_detect_def detect_qualify_def detect_callback_def
        split: sum.splits prod.splits)

lemma default_window:
  "py_or (dict_get_default a ''callback_window'' (JStr ''next business day''))
     (JStr ''next business day'') =
   (if truthy (dict_get a ''callback_window'') then dict_get a ''callback_window''
    else JStr ''next business day'')"
  by (auto simp: dict_get_def dict_get_default_def py_or_def split: option.splits)

text \<open>
  C10, as amended. On the streaming path a \<open>lead_detect\<close> call with interest \<open>later\<close> and a
  missing or empty \<open>callback_window\<close> logs the tool call and does no more than merge the
  fields: no Callback row, no default window, no \<open>OUTCOME_CALLBACK\<close> event, whether or not
  the merge is accepted. On the turn-based path a record whose interest reads as \<open>later\<close>,
  whose \<open>price_range\<close> and \<open>timing\<close> are each a string, missing or falsy, and whose window
  and notes the database can store, creates one Callback row for the lead, with the text
  of the window, or \<open>next business day\<close> when \<open>callback_window\<close> is missing or empty, and
  logs one \<open>OUTCOME_CALLBACK\<close> event.
\<close>

theorem later_without_window:
  "(dict_get ev ''type'' = JStr ''response.function_call''
      \<and> map_of ev ''name'' = Some (JStr ''lead_detect'')
      \<and> dict_get_default ev ''arguments'' (JObj []) = JObj args
      \<and> dict_get args ''interest'' = JStr ''later''
      \<and> \<not> truthy (dict_get args ''callback_window'')
     \<longrightarrow> (\<exists>fl w'. handle_ai_frame (Some (JObj ev)) b w = (fl, b, w')
            \<and> callbacks (wdb w') = callbacks (wdb w)
            \<and> events (wdb w') = events (wdb w) @
                 [\<lparr>ev_call_sid = py_or (bridge_call_sid b) (JStr ''''),
                   event_type = ''AI_TOOL_CALL'',
                   payload = JObj [(''name'', JStr ''lead_detect''), (''args'', JObj args)]\<rparr>]
            \<and> count_events ''OUTCOME_CALLBACK'' (wdb w')
                 = count_events ''OUTCOME_CALLBACK'' (wdb w)))
   \<and> (read_interest a = Inr ''later''
      \<and> read_ok a ''price_range'' = Inr p \<and> read_ok a ''timing'' = Inr t
      \<and> sql_text (if truthy (dict_get a ''callback_window'') then dict_get a ''callback_window''
                   else JStr ''next business day'') = Inr wt
      \<and> sql_text_default (dict_get_default a ''notes'' (JStr '''')) = Inr nt
     \<longrightarrow> (\<exists>d'. decide_and_apply st a lid d =
                  Inr (Some (Callback_set (next_id (map cb_id (callbacks d))) (JStr wt)), d')
            \<and> callbacks d' = callbacks d @
                 [\<lparr>cb_id = next_id (map cb_id (callbacks d)), cb_lead_id = lid,
                   window = JStr wt, cb_notes = JStr nt\<rparr>]
            \<and> (\<not> truthy (dict_get a ''callback_window'') \<longrightarrow> wt = ''next business day'')
            \<and> leads d' = leads d
            \<and> count_events ''OUTCOME_CALLBACK'' d' = Suc (count_events ''OUTCOME_CALLBACK'' d)))"
proof -
  have s: "\<exists>fl w'. handle_ai_frame (Some (JObj ev)) b w = (fl, b, w')
            \<and> callbacks (wdb w') = callbacks (wdb w)
            \<and> events (wdb w') = events (wdb w) @
                 [\<lparr>ev_call_sid = py_or (bridge_call_sid b) (JStr ''''),
                   event_type = ''AI_TOOL_CALL'',
                   payload = JObj [(''name'', JStr ''lead_detect''), (''args'', JObj args)]\<rparr>]
            \<and> count_events ''OUTCOME_CALLBACK'' (wdb w')
                 = count_events ''OUTCOME_CALLBACK'' (wdb w)"
    if h: "dict_get ev ''type'' = JStr ''response.function_call''"
      "map_of ev ''name'' = Some (JStr ''lead_detect'')"
      "dict_get_default ev ''arguments'' (JObj []) = JObj args"
      "dict_get args ''interest'' = JStr ''later''"
      "\<not> truthy (dict_get args ''callback_window'')"
  proof -
    define w1 where "w1 = w\<lparr>wdb := save_event ''AI_TOOL_CALL''
                               (JObj [(''name'', JStr ''lead_detect''), (''args'', JObj args)])
                               (bridge_call_sid b) (wdb w)\<rparr>"
    let ?kw = "[Interest \<mapsto> dict_get_default args ''interest'' (JStr ''''),
                Price_range \<mapsto> dict_get_default args ''price_range'' (JStr ''''),
                Timing \<mapsto> dict_get_default args ''timing'' (JStr ''''),
                Condition \<mapsto> dict_get_default args ''condition'' (JStr ''''),
                Owner_status \<mapsto> dict_get_default args ''owner_status'' (JStr '''')]"
    have hf: "handle_ai_frame (Some (JObj ev)) b w = lead_detect args b w1"
      using h(1-3) by (simp add: handle_ai_frame_def function_call_def Let_def w1_def)
    note L = lead_detect_later_no_window[OF h(4,5), of b w1]
    show ?thesis
    proof (cases "upsert_lead (bridge_phone b) ?kw (wdb w1)")
      case (Inl e)
      then have "handle_ai_frame (Some (JObj ev)) b w = (Raised e, b, w1)"
        using hf L by simp
      then show ?thesis
        by (simp add: w1_def count_events_def)
    next
      case (Inr r)
      obtain l d where r: "r = (l, d)" by (cases r)
      have d: "events d = events (wdb w1)" "callbacks d = callbacks (wdb w1)"
        using upsert_lead_frame[of "bridge_phone b" ?kw "wdb w1" l d] Inr r by simp_all
      have "handle_ai_frame (Some (JObj ev)) b w = (Next, b, w1\<lparr>wdb := d\<rparr>)"
        using hf L Inr r by simp
      then show ?thesis
        using d by (simp add: w1_def count_events_def)
    qed
  qed
  have t: "\<exists>d'. decide_and_apply st a lid d =
                  Inr (Some (Callback_set (next_id (map cb_id (callbacks d))) (JStr wt)), d')
            \<and> callbacks d' = callbacks d @
                 [\<lparr>cb_id = next_id (map cb_id (callbacks d)), cb_lead_id = lid,
                   window = JStr wt, cb_notes = JStr nt\<rparr>]
            \<and> (\<not> truthy (dict_get a ''callback_window'') \<longrightarrow> wt = ''next business day'')
            \<and> leads d' = leads d
            \<and> count_events ''OUTCOME_CALLBACK'' d' = Suc (count_events ''OUTCOME_CALLBACK'' d)"
    if h: "read_interest a = Inr ''later''"
      "read_ok a ''price_range'' = Inr p" "read_ok a ''timing'' = Inr t"
      "sql_text (if truthy (dict_get a ''callback_window'') then dict_get a ''callback_window''
                   else JStr ''next business day'') = Inr wt"
      "sql_text_default (dict_get_default a ''notes'' (JStr '''')) = Inr nt"
  proof -
    have w: "sql_text (py_or (dict_get_default a ''callback_window'' (JStr ''next business day''))
                 (JStr ''next business day'')) = Inr wt"
      using h(4) by (simp only: default_window)
    have cb: "create_callback lid
                (dict_get_default a ''callback_window'' (JStr ''next business day''))
                (dict_get_default a ''notes'' (JStr '''')) d =
              Inr (\<lparr>cb_id = next_id (map cb_id (callbacks d)), cb_lead_id = lid,
                    window = JStr wt, cb_notes = JStr nt\<rparr>,
                   d\<lparr>callbacks := callbacks d @
                       [\<lparr>cb_id = next_id (map cb_id (callbacks d)), cb_lead_id = lid,
                         window = JStr wt, cb_notes = JStr nt\<rparr>]\<rparr>)"
      using w h(5) by (simp add: create_callback_def Let_def)
    have nw: "\<not> truthy (dict_get a ''callback_window'') \<longrightarrow> wt = ''next business day''"
      using h(4) by auto
    show ?thesis
      using h(1-3) cb nw
      by (simp add: decide_and_apply_def count_events_def)
  qed
  show ?thesis
    using s t by blast
qed

theorem later_without_window_witness:
  "handle_ai_frame (tool_call ''lead_detect'' [(''interest'', JStr ''later'')]) ex_bridge ex_world
     = (Next, ex_bridge,
        ex_world\<lparr>wdb := ex_db\<lparr>leads := [ex_lead\<lparr>interest := JStr ''later''\<rparr>],
                                events := [\<lparr>ev_call_sid = JStr ''CA1'',
                                            event_type = ''AI_TOOL_CALL'',
                                            payload = JObj [(''name'', JStr ''lead_detect''),
                                              (''args'', JObj [(''interest'', JStr ''later'')])]\<rparr>]\<rparr>\<rparr>)
   \<and> (\<exists>fl w'. handle_ai_frame (tool_call ''lead_detect'' [(''interest'', JStr ''later'')])
                  ex_bridge ex_world = (fl, ex_bridge, w')
         \<and> callbacks (wdb w') = callbacks (wdb ex_world)
         \<and> count_events ''OUTCOME_CALLBACK'' (wdb w')
              = count_events ''OUTCOME_CALLBACK'' (wdb ex_world))
   \<and> read_interest [(''interest'', JStr ''later''), (''callback_window'', JStr '''')] = Inr ''later''
   \<and> decide_and_apply ex_state [(''interest'', JStr ''later''), (''callback_window'', JStr '''')]
        1 ex_db
     = Inr (Some (Callback_set 1 (JStr ''next business day'')),
            ex_db\<lparr>callbacks := [\<lparr>cb_id = 1, cb_lead_id = 1, window = JStr ''next business day'',
                                   cb_notes = JStr ''''\<rparr>],
                  events := [\<lparr>ev_call_sid = JStr ''CA1'', event_type = ''OUTCOME_CALLBACK'',
                               payload = JObj [(''lead_id'', JNum 1), (''callback_id'', JNum 1),
                                               (''window'', JStr ''next business day'')]\<rparr>]\<rparr>)
   \<and> (\<exists>d'. decide_and_apply ex_state
              [(''interest'', JStr ''later''), (''callback_window'', JStr '''')] 1 ex_db =
              Inr (Some (Callback_set (next_id (map cb_id (callbacks ex_db)))
                     (JStr ''next business day'')), d')
         \<and> count_events ''OUTCOME_CALLBACK'' d' = Suc (count_events ''OUTCOME_CALLBACK'' ex_db))
   \<and> decide_and_apply ex_state
        [(''interest'', JStr ''later''), (''callback_window'', JNum 5), (''notes'', JNull)]
        1 ex_db
     = Inr (Some (Callback_set 1 (JStr ''5'')),
            ex_db\<lparr>callbacks := [\<lparr>cb_id = 1, cb_lead_id = 1, window = JStr ''5'',
                                   cb_notes = JStr ''''\<rparr>],
                  events := [\<lparr>ev_call_sid = JStr ''CA1'', event_type = ''OUTCOME_CALLBACK'',
                               payload = JObj [(''lead_id'', JNum 1), (''callback_id'', JNum 1),
                                               (''window'', JStr ''5'')]\<rparr>]\<rparr>)"
proof -
  let ?ev = "[(''type'', JStr ''response.function_call''), (''name'', JStr ''lead_detect''),
              (''arguments'', JObj [(''interest'', JStr ''later'')])]"
  let ?a = "[(''interest'', JStr ''later''), (''callback_window'', JStr '''')]"
  have s1: "dict_get ?ev ''type'' = JStr ''response.function_call''"
    "map_of ?ev ''name'' = Some (JStr ''lead_detect'')"
    "dict_get_default ?ev ''arguments'' (JObj []) = JObj [(''interest'', JStr ''later'')]"
    "dict_get [(''interest'', JStr ''later'')] ''interest'' = JStr ''later''"
    "\<not> truthy (dict_get [(''interest'', JStr ''later'')] ''callback_window'')"
    by (simp_all add: dict_get_def dict_get_default_def)
  have t1: "read_interest ?a = Inr ''later''" "read_ok ?a ''price_range'' = Inr False"
    "read_ok ?a ''timing'' = Inr False"
    by code_simp+
  have t2: "sql_text (if truthy (dict_get ?a ''callback_window'')
                      then dict_get ?a ''callback_window''
                      else JStr ''next business day'') = Inr ''next business day''"
    "sql_text_default (dict_get_default ?a ''notes'' (JStr '''')) = Inr ''''"
    by (simp_all add: dict_get_def dict_get_default_def sql_text_default_def)
  have c1: "handle_ai_frame (tool_call ''lead_detect'' [(''interest'', JStr ''later'')])
      ex_bridge ex_world
     = (Next, ex_bridge,
        ex_world\<lparr>wdb := ex_db\<lparr>leads := [ex_lead\<lparr>interest := JStr ''later''\<rparr>],
                                events := [\<lparr>ev_call_sid = JStr ''CA1'',
                                            event_type = ''AI_TOOL_CALL'',
                                            payload = JObj [(''name'', JStr ''lead_detect''),
                                              (''args'', JObj [(''interest'', JStr ''later'')])]\<rparr>]\<rparr>\<rparr>)"
    by code_simp
  have c2: "decide_and_apply ex_state ?a 1 ex_db
     = Inr (Some (Callback_set 1 (JStr ''next business day'')),
            ex_db\<lparr>callbacks := [\<lparr>cb_id = 1, cb_lead_id = 1, window = JStr ''next business day'',
                                   cb_notes = JStr ''''\<rparr>],
                  events := [\<lparr>ev_call_sid = JStr ''CA1'', event_type = ''OUTCOME_CALLBACK'',
                               payload = JObj [(''lead_id'', JNum 1), (''callback_id'', JNum 1),
                                               (''window'', JStr ''next business day'')]\<rparr>]\<rparr>)"
    by code_simp
  have c3: "decide_and_apply ex_state
        [(''interest'', JStr ''later''), (''callback_window'', JNum 5), (''notes'', JNull)]
        1 ex_db
     = Inr (Some (Callback_set 1 (JStr ''5'')),
            ex_db\<lparr>callbacks := [\<lparr>cb_id = 1, cb_lead_id = 1, window = JStr ''5'',
                                   cb_notes = JStr ''''\<rparr>],
                  events := [\<lparr>ev_call_sid = JStr ''CA1'', event_type = ''OUTCOME_CALLBACK'',
                               payload = JObj [(''lead_id'', JNum 1), (''callback_id'', JNum 1),
                                               (''window'', JStr ''5'')]\<rparr>]\<rparr>)"
    by code_simp
  have u: "\<exists>d'. decide_and_apply ex_state ?a 1 ex_db =
              Inr (Some (Callback_set (next_id (map cb_id (callbacks ex_db)))
                     (JStr ''next business day'')), d')
         \<and> count_events ''OUTCOME_CALLBACK'' d' = Suc (count_events ''OUTCOME_CALLBACK'' ex_db)"
    using later_without_window[of ?ev "[(''interest'', JStr ''later'')]" ex_bridge ex_world
            ?a False False "''next business day''" "''''" ex_state 1 ex_db] t1 t2
    by blast
  have v: "\<exists>fl w'. handle_ai_frame (tool_call ''lead_detect'' [(''interest'', JStr ''later'')])
                  ex_bridge ex_world = (fl, ex_bridge, w')
         \<and> callbacks (wdb w') = callbacks (wdb ex_world)
         \<and> count_events ''OUTCOME_CALLBACK'' (wdb w')
              = count_events ''OUTCOME_CALLBACK'' (wdb ex_world)"
    using later_without_window[of ?ev "[(''interest'', JStr ''later'')]" ex_bridge ex_world
            ?a False False "''next business day''" "''''" ex_state 1 ex_db] s1
    unfolding tool_call_def by blast
  show ?thesis
    by (rule conjI[OF c1 conjI[OF v conjI[OF t1(1) conjI[OF c2 conjI[OF u c3]]]]])
qed

text \<open>
  C10 as stated fails in its turn-based half: a later interest does not always create a
  Callback. With a numeric \<open>price_range\<close> the policy raises at the head of the function,
  and with a window the database cannot store \<open>create_callback\<close> raises; in both cases no
  Callback row is written and nothing is logged.
\<close>

theorem later_without_window_counterexample:
  "read_interest [(''interest'', JStr ''later''), (''price_range'', JNum 350000)] = Inr ''later''
   \<and> decide_and_apply ex_state [(''interest'', JStr ''later''), (''price_range'', JNum 350000)]
        1 ex_db = Inl AttributeError
   \<and> decide_and_apply ex_state
        [(''interest'', JStr ''later''), (''callback_window'', JArr [JStr ''tomorrow''])]
        1 ex_db = Inl DBAPIError"
  by code_simp

end
